theory Spec2Isabelle
  imports Complex_Main
begin

section \<open>Machine integers and message formatting\<close>

text \<open>
  The kernel computes sizes in \<open>i32\<close>. A product that leaves the 32-bit range is
  undefined behaviour in C++; the model wraps it (two's complement), and the theorems
  that speak about sizes say in which range they hold.
\<close>

definition i32 :: "int \<Rightarrow> int" where
  "i32 x = (x + 2 ^ 31) mod 2 ^ 32 - 2 ^ 31"

text \<open>C++ \<open>!x\<close> on an integer, as the \<open>int\<close> (0 or 1) it promotes to in arithmetic.\<close>

definition lnot :: "int \<Rightarrow> int" where
  "lnot x = (if x = 0 then 1 else 0)"

text \<open>Decimal rendering, for the \<open>%d\<close> and \<open>%lu\<close> conversions of the error message.\<close>

definition digit_char :: "nat \<Rightarrow> char" where
  "digit_char d = ''0123456789'' ! d"

fun string_of_nat :: "nat \<Rightarrow> string" where
  "string_of_nat n =
     (if n < 10 then [digit_char n]
      else string_of_nat (n div 10) @ [digit_char (n mod 10)])"

declare string_of_nat.simps [simp del]

definition string_of_int :: "int \<Rightarrow> string" where
  "string_of_int i =
     (if i < 0 then CHR ''-'' # string_of_nat (nat (- i)) else string_of_nat (nat i))"

section \<open>Data model\<close>

text \<open>
  \<open>float\<close> values are only stored and copied by the kernel; every computation on them
  happens in an external collaborator. They are carried as real numbers.
\<close>

type_synonym float4 = "real \<times> real \<times> real \<times> real"

type_synonym image = "real list"

text \<open>\<open>proto::Result\<close>.\<close>

record Result =
  success :: bool
  msg :: string

text \<open>\<open>proto::GipumaArgs\<close>; each camera is its flattened list \<open>p\<close> of matrix entries.\<close>

record GipumaArgs =
  args_cameras :: "real list list"
  args_min_disparity :: real
  args_max_disparity :: real
  args_min_depth :: real
  args_max_depth :: real
  args_iterations :: int
  args_kernel_width :: int
  args_kernel_height :: int

text \<open>\<open>Kernel::Config\<close>: the fields the constructor reads.\<close>

record Config =
  config_devices :: "nat list"
  config_args :: "nat list"
  config_input_columns :: "string list"

text \<open>\<open>Camera\<close>: the projection matrix \<open>P\<close> (3 x 4, row major) and the fields the planner uses.\<close>

record Camera =
  cam_P :: "real list"
  baseline :: real
  cam_depthMin :: real
  cam_depthMax :: real

record CameraParameters =
  cameras :: "Camera list"
  cp_f :: real
  viewSelectionSubset :: "nat list"

text \<open>
  \<open>CameraParameters_cu\<close>, the solver's copy of the rig: its \<open>cameras\<close> and
  \<open>viewSelectionSubset\<close> are arrays of a fixed length (the length of the lists).
\<close>

record Camera_cu =
  cu_depthMin :: real
  cu_depthMax :: real

record CameraParameters_cu =
  cu_cameras :: "Camera_cu list"
  cu_viewSelectionSubset :: "nat list"
  viewSelectionSubsetNumber :: int
  cu_cols :: int
  cu_rows :: int

record AlgorithmParameters =
  num_img_processed :: int
  min_angle :: real
  max_angle :: real
  min_disparity :: real
  max_disparity :: real
  depthMin :: real
  depthMax :: real
  iterations :: int
  box_hsize :: int
  box_vsize :: int
  cols :: int
  rows :: int

text \<open>
  \<open>Lines_cu\<close>, the results buffer: \<open>norm4\<close> holds one \<open>float4\<close> per pixel.
  \<open>lines_resizes\<close> counts the calls of \<open>resize\<close>, each of which allocates the buffer.
\<close>

record Lines_cu =
  lines_n :: int
  lines_s :: int
  lines_l :: int
  norm4 :: "float4 list"
  lines_resizes :: nat

text \<open>
  \<open>state->params\<close> is a pointer: it either still points to the parameters the
  \<open>GlobalState\<close> was created with, or to the kernel's \<open>algo_params\<close>.
\<close>

datatype params_ptr = Params_initial | Params_algo_params

record GlobalState =
  gs_cameras :: CameraParameters_cu
  gs_params :: params_ptr
  gs_lines :: Lines_cu
  gs_imgs :: "image list"

text \<open>\<open>FrameInfo\<close> of the base class \<open>VideoKernel\<close>.\<close>

record FrameInfo =
  width :: int
  height :: int

text \<open>The calls the kernel makes on the GPU, in order.\<close>

datatype gpu_call = SetDevice nat | BindTextures nat | ReleaseTextures int

text \<open>
  The kernel instance. \<open>frame_info\<close> is the member of the base class that the planner
  and the executor read. \<open>gpu_trace\<close> records the GPU calls made so far.

  Modelled from the spec: \<open>planned\<close> is the resolution the base class last ran the
  planner for ("record the resolution as planned"); the base class is not in the source
  file.
\<close>

record kernel =
  device :: nat
  valid :: Result
  camera_params :: CameraParameters
  algo_params :: AlgorithmParameters
  state :: GlobalState
  num_cameras :: int
  frame_info :: FrameInfo
  planned :: "FrameInfo option"
  gpu_trace :: "gpu_call list"

text \<open>
  What can end a call abnormally: a failed \<open>assert\<close>, and an index outside a vector or
  array (undefined behaviour in C++, a fault in the model). An abnormal end carries the
  GPU calls made up to it.
\<close>

datatype fault = Assertion_failed | Index_out_of_range

type_synonym 'a outcome = "(fault \<times> gpu_call list) + 'a"

text \<open>Rows of the host runtime: an input row is a byte buffer with its declared size.\<close>

record Row =
  row_buffer :: "nat list"
  row_size :: nat

text \<open>
  An output row points into the block buffer of its call: \<open>out_offset\<close> is the byte
  offset of the row from the start of the block, \<open>out_size\<close> its size in bytes.
\<close>

record out_row =
  out_offset :: int
  out_size :: int

text \<open>
  What a call of the executor puts out: the output column, and the block buffer it
  allocated for the rows of the batch, with the byte size it asked for and the
  \<open>float4\<close> values written so far, each at its byte offset.
\<close>

record batch_output =
  output_column :: "out_row list"
  block_size :: int
  block_data :: "int \<rightharpoonup> float4"

section \<open>External collaborators\<close>

text \<open>
  The argument parser, the gipuma library (default objects, rig builder, view selection,
  disparity conversion, solver), the image conversion and the decoding of the frame
  metadata are not part of the kernel's source. They are parameters of the model.
  \<open>to_grayscale\<close> stands for the download of a frame and its conversion to
  floating-point grayscale; \<open>runcuda\<close> receives the parameters \<open>state->params\<close>
  points to and returns its status with the state it leaves.
\<close>

record externals =
  ParseFromArray :: "nat list \<Rightarrow> GipumaArgs option"
  new_GlobalState :: GlobalState
  new_AlgorithmParameters :: AlgorithmParameters
  new_CameraParameters :: CameraParameters
  new_Camera :: Camera
  getCameraParameters ::
    "CameraParameters_cu \<Rightarrow> CameraParameters \<Rightarrow> CameraParameters_cu \<times> CameraParameters"
  selectViews ::
    "CameraParameters \<Rightarrow> int \<Rightarrow> int \<Rightarrow> AlgorithmParameters
      \<Rightarrow> CameraParameters \<times> AlgorithmParameters"
  disparityDepthConversion :: "real \<Rightarrow> real \<Rightarrow> real \<Rightarrow> real"
  to_grayscale :: "int \<Rightarrow> int \<Rightarrow> nat list \<Rightarrow> image"
  runcuda :: "AlgorithmParameters \<Rightarrow> GlobalState \<Rightarrow> int \<times> GlobalState"
  read_frame_info :: "Row list \<Rightarrow> FrameInfo option"

section \<open>Construction and validation\<close>

definition set_device :: "kernel \<Rightarrow> kernel" where
  "set_device k = k\<lparr>gpu_trace := gpu_trace k @ [SetDevice (device k)]\<rparr>"

text \<open>
  Modelled from the spec: the macro \<open>RESULT_ERROR\<close> is not in the source file. It marks
  the result as failed and stores the formatted message.
\<close>

definition RESULT_ERROR :: "Result \<Rightarrow> string \<Rightarrow> Result" where
  "RESULT_ERROR r m = r\<lparr>success := False, msg := m\<rparr>"

text \<open>
  One pass of the loop over \<open>args_.cameras()\<close>: a default camera whose \<open>P(i, j)\<close> is
  \<open>cam.p(i * 4 + j)\<close>. Reading past the end of \<open>p\<close> is a fault.
\<close>

definition read_camera :: "externals \<Rightarrow> real list \<Rightarrow> fault + Camera" where
  "read_camera ext p =
     (if length p < 12 then Inl Index_out_of_range
      else Inr ((new_Camera ext)
        \<lparr>cam_P := concat (map (\<lambda>i. map (\<lambda>j. p ! (i * 4 + j)) [0..<4]) [0..<3])\<rparr>))"

fun read_cameras :: "externals \<Rightarrow> real list list \<Rightarrow> Camera list \<Rightarrow> fault + Camera list" where
  "read_cameras ext [] cs = Inr cs"
| "read_cameras ext (p # ps) cs =
     (case read_camera ext p of
        Inl e \<Rightarrow> Inl e
      | Inr c \<Rightarrow> read_cameras ext ps (cs @ [c]))"

text \<open>
  The guard of the constructor, as written:
  \<open>!args_.cameras_size() * 2 == config.input_columns.size()\<close>. The negation applies to
  the camera count alone.
\<close>

definition columns_guard :: "int \<Rightarrow> nat \<Rightarrow> bool" where
  "columns_guard cameras_size n_columns \<longleftrightarrow> lnot cameras_size * 2 = int n_columns"

definition columns_message :: "int \<Rightarrow> nat \<Rightarrow> string" where
  "columns_message cameras_size n_columns =
     ''GipumaKernel args specified '' @ string_of_int cameras_size @
     '' cameras but received '' @ string_of_nat n_columns @ '' columns as input''"

text \<open>
  The state the constructor starts from. \<open>num_cameras\<close> and \<open>frame_info\<close> are not
  initialised before the parse; the model shows them as 0.
\<close>

definition initial_kernel :: "externals \<Rightarrow> nat \<Rightarrow> kernel" where
  "initial_kernel ext d =
     \<lparr>device = d,
      valid = \<lparr>success = True, msg = []\<rparr>,
      camera_params = new_CameraParameters ext,
      algo_params = new_AlgorithmParameters ext,
      state = new_GlobalState ext,
      num_cameras = 0,
      frame_info = \<lparr>width = 0, height = 0\<rparr>,
      planned = None,
      gpu_trace = [SetDevice d]\<rparr>"

definition configure :: "GipumaArgs \<Rightarrow> AlgorithmParameters \<Rightarrow> AlgorithmParameters" where
  "configure a ap =
     ap\<lparr>num_img_processed := int (length (args_cameras a)),
        min_angle := 1,
        max_angle := 90,
        min_disparity := args_min_disparity a,
        max_disparity := args_max_disparity a,
        depthMin := args_min_depth a,
        depthMax := args_max_depth a,
        iterations := args_iterations a,
        box_hsize := args_kernel_width a,
        box_vsize := args_kernel_height a\<rparr>"

definition GipumaKernel :: "externals \<Rightarrow> Config \<Rightarrow> kernel outcome" where
  "GipumaKernel ext config =
     (case config_devices config of
        [] \<Rightarrow> Inl (Index_out_of_range, [])
      | d # _ \<Rightarrow>
          let k = initial_kernel ext d in
          (case ParseFromArray ext (config_args config) of
             None \<Rightarrow>
               Inr (k\<lparr>valid :=
                 RESULT_ERROR (valid k) ''GipumaKernel could not parse protobuf args''\<rparr>)
           | Some a \<Rightarrow>
               let cameras_size = int (length (args_cameras a));
                   k = k\<lparr>num_cameras := cameras_size,
                         algo_params := configure a (algo_params k)\<rparr>
               in
               if columns_guard cameras_size (length (config_input_columns config)) then
                 Inr (k\<lparr>valid := RESULT_ERROR (valid k)
                   (columns_message cameras_size (length (config_input_columns config)))\<rparr>)
               else
                 (case read_cameras ext (args_cameras a) (cameras (camera_params k)) of
                    Inl e \<Rightarrow> Inl (e, gpu_trace k)
                  | Inr cs \<Rightarrow>
                      let (cu, cp) = getCameraParameters ext (gs_cameras (state k))
                                       ((camera_params k)\<lparr>cameras := cs\<rparr>)
                      in Inr (k\<lparr>camera_params := cp,
                                state := (state k)\<lparr>gs_cameras := cu\<rparr>\<rparr>))))"

definition validate :: "kernel \<Rightarrow> Result \<Rightarrow> Result" where
  "validate k result = result\<lparr>msg := msg (valid k), success := success (valid k)\<rparr>"

section \<open>The frame-geometry planner\<close>

text \<open>
  Modelled from the spec: \<open>Lines_cu::resize\<close> belongs to the gipuma library. It makes
  the results buffer hold the given number of elements; the model fills it with zeros
  and counts the call.
\<close>

definition resize :: "int \<Rightarrow> Lines_cu \<Rightarrow> Lines_cu" where
  "resize m lns =
     lns\<lparr>norm4 := replicate (nat m) (0, 0, 0, 0), lines_resizes := Suc (lines_resizes lns)\<rparr>"

text \<open>
  The body of the loop over the cameras (lines 81 to 94 of the source) for index \<open>i\<close>:
  the depth bounds are copied into both copies of the camera, then the two shared
  disparity fields are assigned from this camera's baseline.
\<close>

definition plan_camera :: "externals \<Rightarrow> nat \<Rightarrow> kernel \<Rightarrow> kernel outcome" where
  "plan_camera ext i k =
     (let cp = camera_params k; ap = algo_params k; cu = gs_cameras (state k) in
      if i < length (cameras cp) \<and> i < length (cu_cameras cu) then
        let c = (cameras cp ! i)\<lparr>cam_depthMin := depthMin ap, cam_depthMax := depthMax ap\<rparr>;
            cc = (cu_cameras cu ! i)\<lparr>cu_depthMin := depthMin ap, cu_depthMax := depthMax ap\<rparr>;
            ap = ap\<lparr>min_disparity :=
                   disparityDepthConversion ext (cp_f cp) (baseline c) (cam_depthMax c)\<rparr>;
            ap = ap\<lparr>max_disparity :=
                   disparityDepthConversion ext (cp_f cp) (baseline c) (cam_depthMin c)\<rparr>
        in Inr (k\<lparr>camera_params := cp\<lparr>cameras := (cameras cp)[i := c]\<rparr>,
                  algo_params := ap,
                  state := (state k)\<lparr>gs_cameras := cu\<lparr>cu_cameras := (cu_cameras cu)[i := cc]\<rparr>\<rparr>\<rparr>)
      else Inl (Index_out_of_range, gpu_trace k))"

fun plan_cameras :: "externals \<Rightarrow> nat list \<Rightarrow> kernel \<Rightarrow> kernel outcome" where
  "plan_cameras ext [] k = Inr k"
| "plan_cameras ext (i # idxs) k =
     (case plan_camera ext i k of
        Inl e \<Rightarrow> Inl e
      | Inr k' \<Rightarrow> plan_cameras ext idxs k')"

text \<open>The loop that copies the selected views into the solver's fixed array.\<close>

definition copy_view :: "nat \<Rightarrow> kernel \<Rightarrow> kernel outcome" where
  "copy_view i k =
     (let cu = gs_cameras (state k); sub = viewSelectionSubset (camera_params k) in
      if i < length (cu_viewSelectionSubset cu) \<and> i < length sub then
        Inr (k\<lparr>state := (state k)\<lparr>gs_cameras :=
               cu\<lparr>cu_viewSelectionSubset := (cu_viewSelectionSubset cu)[i := sub ! i]\<rparr>\<rparr>\<rparr>)
      else Inl (Index_out_of_range, gpu_trace k))"

fun copy_views :: "nat list \<Rightarrow> kernel \<Rightarrow> kernel outcome" where
  "copy_views [] k = Inr k"
| "copy_views (i # idxs) k =
     (case copy_view i k of
        Inl e \<Rightarrow> Inl e
      | Inr k' \<Rightarrow> copy_views idxs k')"

text \<open>Lines 101 to 113: the resolution and the results buffer.\<close>

definition finish_plan :: "int \<Rightarrow> int \<Rightarrow> int \<Rightarrow> kernel \<Rightarrow> kernel" where
  "finish_plan frame_width frame_height selected_views k =
     (let st = state k;
          cu = (gs_cameras st)\<lparr>viewSelectionSubsetNumber := selected_views,
                 cu_cols := frame_width, cu_rows := frame_height\<rparr>;
          lns = (gs_lines st)\<lparr>lines_n := i32 (frame_height * frame_width)\<rparr>;
          lns = resize (i32 (frame_height * frame_width)) lns;
          lns = lns\<lparr>lines_s := frame_width, lines_l := frame_width\<rparr>
      in k\<lparr>algo_params := (algo_params k)\<lparr>cols := frame_width, rows := frame_height\<rparr>,
            state := st\<lparr>gs_params := Params_algo_params, gs_cameras := cu, gs_lines := lns\<rparr>\<rparr>)"

text \<open>
  Lines 75 to 77: the device is selected, then the views; \<open>selectViews\<close> receives the
  rig and the parameters by reference.
\<close>

definition views_selected :: "externals \<Rightarrow> kernel \<Rightarrow> kernel" where
  "views_selected ext k0 =
     (let k = set_device k0;
          sel = selectViews ext (camera_params k) (width (frame_info k0))
                  (height (frame_info k0)) (algo_params k)
      in k\<lparr>camera_params := fst sel, algo_params := snd sel\<rparr>)"

definition new_frame_info :: "externals \<Rightarrow> kernel \<Rightarrow> kernel outcome" where
  "new_frame_info ext k0 =
     (let frame_width = width (frame_info k0);
          frame_height = height (frame_info k0);
          k = views_selected ext k0;
          selected_views = i32 (int (length (viewSelectionSubset (camera_params k))))
      in if \<not> selected_views > 0 then Inl (Assertion_failed, gpu_trace k)
         else
           (case plan_cameras ext [0..<nat (num_cameras k)] k of
              Inl e \<Rightarrow> Inl e
            | Inr k \<Rightarrow>
                (case copy_views [0..<nat selected_views] k of
                   Inl e \<Rightarrow> Inl e
                 | Inr k \<Rightarrow> Inr (finish_plan frame_width frame_height selected_views k))))"

section \<open>The per-frame executor\<close>

text \<open>
  Modelled from the spec: \<open>check_frame_info\<close> is a method of the base class, which is
  not in the source file. It reads the frame geometry from the metadata column and runs
  the planner "on first frame or whenever resolution changes from the previously
  planned one", then records the resolution as planned. A column from which no
  geometry can be read establishes none.
\<close>

definition check_frame_info :: "externals \<Rightarrow> kernel \<Rightarrow> Row list \<Rightarrow> kernel outcome" where
  "check_frame_info ext k column =
     (case read_frame_info ext column of
        None \<Rightarrow> Inr k
      | Some fi \<Rightarrow>
          if planned k = Some fi then Inr k
          else
            (case new_frame_info ext (k\<lparr>frame_info := fi\<rparr>) of
               Inl e \<Rightarrow> Inl e
             | Inr k' \<Rightarrow> Inr (k'\<lparr>planned := Some fi\<rparr>)))"

text \<open>
  Modelled from the spec: the texture calls belong to the gipuma library.
  \<open>addImageToTextureFloatGray\<close> uploads the images as the texture array, \<open>delTexture\<close>
  frees the first \<open>m\<close> textures; the kernel's trace records each call.
\<close>

definition addImageToTextureFloatGray :: "image list \<Rightarrow> kernel \<Rightarrow> kernel" where
  "addImageToTextureFloatGray images k =
     k\<lparr>state := (state k)\<lparr>gs_imgs := images\<rparr>,
       gpu_trace := gpu_trace k @ [BindTextures (length images)]\<rparr>"

definition delTexture :: "int \<Rightarrow> kernel \<Rightarrow> kernel" where
  "delTexture m k =
     k\<lparr>state := (state k)\<lparr>gs_imgs := drop (nat m) (gs_imgs (state k))\<rparr>,
       gpu_trace := gpu_trace k @ [ReleaseTextures m]\<rparr>"

text \<open>
  Preprocessing of camera channel \<open>c\<close> of frame \<open>i\<close> (lines 134 to 143): the row is
  read from column \<open>c * 2\<close>, its size is asserted, and it is converted to grayscale.
  The size is compared with the \<open>i32\<close> product \<open>width * height * 3\<close>.
\<close>

definition preprocess ::
  "externals \<Rightarrow> kernel \<Rightarrow> Row list list \<Rightarrow> int \<Rightarrow> int \<Rightarrow> nat \<Rightarrow> nat \<Rightarrow> image outcome" where
  "preprocess ext k input_columns w h i c =
     (if \<not> c * 2 < length input_columns then Inl (Index_out_of_range, gpu_trace k)
      else
        let frame_column = input_columns ! (c * 2) in
        if \<not> i < length frame_column then Inl (Index_out_of_range, gpu_trace k)
        else if int (row_size (frame_column ! i)) \<noteq> i32 (i32 (w * h) * 3)
          then Inl (Assertion_failed, gpu_trace k)
        else Inr (to_grayscale ext (height (frame_info k)) (width (frame_info k))
                    (row_buffer (frame_column ! i))))"

fun preprocess_all ::
  "externals \<Rightarrow> kernel \<Rightarrow> Row list list \<Rightarrow> int \<Rightarrow> int \<Rightarrow> nat \<Rightarrow> nat list \<Rightarrow> image list
    \<Rightarrow> image list outcome" where
  "preprocess_all ext k input_columns w h i [] images = Inr images"
| "preprocess_all ext k input_columns w h i (c # cs) images =
     (case preprocess ext k input_columns w h i c of
        Inl e \<Rightarrow> Inl e
      | Inr g \<Rightarrow> preprocess_all ext k input_columns w h i cs (images @ [g]))"

text \<open>
  Modelled from the spec: the macro \<open>INSERT_ROW\<close> is not in the source file. It appends
  a row with the given buffer pointer (here the offset into the block) and size to the
  column.
\<close>

definition INSERT_ROW :: "out_row list \<Rightarrow> int \<Rightarrow> int \<Rightarrow> out_row list" where
  "INSERT_ROW column offset sz = column @ [\<lparr>out_offset = offset, out_size = sz\<rparr>]"

text \<open>
  Modelled from the spec: \<open>new_block_buffer\<close> is not in the source file. It returns
  one buffer of the given byte size for the given number of rows of a batch; nothing
  is written in it yet.
\<close>

definition new_block_buffer :: "int \<Rightarrow> int \<Rightarrow> (int \<rightharpoonup> float4)" where
  "new_block_buffer sz count = Map.empty"

text \<open>
  The \<open>cudaMemcpy\<close> of \<open>output_size\<close> bytes out of \<open>norm4\<close> to
  \<open>output_buffer + offset\<close>: \<open>copy_points\<close> are the values copied, 16 bytes for each
  \<open>float4\<close>, and \<open>write_points\<close> puts them at the offsets \<open>offset\<close>,
  \<open>offset + 16\<close>, ... of the block, over what was there. The block is not bounded in
  the model: a copy that leaves the allocated size (undefined behaviour in C++) lands
  at its offset.
\<close>

definition copy_points :: "int \<Rightarrow> GlobalState \<Rightarrow> float4 list" where
  "copy_points output_size st = take (nat (output_size div 16)) (norm4 (gs_lines st))"

definition write_points :: "(int \<rightharpoonup> float4) \<Rightarrow> int \<Rightarrow> float4 list \<Rightarrow> (int \<rightharpoonup> float4)" where
  "write_points blk offset vs =
     (\<lambda>a. if offset \<le> a \<and> a < offset + 16 * int (length vs) \<and> (a - offset) mod 16 = 0
          then Some (vs ! nat ((a - offset) div 16))
          else blk a)"

text \<open>
  One pass of the loop over the frames of the batch (lines 132 to 159). The op is
  registered with the single output column "points", so \<open>output_columns[0]\<close> is the
  column the model carries. The statuses that \<open>runcuda\<close> and \<open>cudaMemcpy\<close> return
  are not looked at. \<open>output_size\<close> is \<open>width * height * sizeof(float4)\<close>: the
  \<open>i32\<close> product of the dimensions times 16, taken in \<open>size_t\<close> and narrowed to
  \<open>i32\<close>, which modulo \<open>2 ^ 32\<close> is the \<open>i32\<close> product. The row of frame \<open>i\<close>
  is copied to, and points to, \<open>output_buffer + output_size * i\<close>, an \<open>i32\<close>
  product again. Assertions are enabled.
\<close>

definition process_frame ::
  "externals \<Rightarrow> Row list list \<Rightarrow> int \<Rightarrow> int \<Rightarrow> int \<Rightarrow> nat \<Rightarrow> kernel \<times> batch_output
    \<Rightarrow> (kernel \<times> batch_output) outcome" where
  "process_frame ext input_columns w h output_size i ko =
     (let (k, out) = ko in
      case preprocess_all ext k input_columns w h i [0..<nat (num_cameras k)] [] of
        Inl e \<Rightarrow> Inl e
      | Inr grayscale_images \<Rightarrow>
          let k = addImageToTextureFloatGray grayscale_images k;
              k = k\<lparr>state := snd (runcuda ext (algo_params k) (state k))\<rparr>;
              offset = i32 (output_size * int i);
              out = out\<lparr>block_data :=
                      write_points (block_data out) offset (copy_points output_size (state k))\<rparr>;
              out = out\<lparr>output_column := INSERT_ROW (output_column out) offset output_size\<rparr>;
              k = delTexture (num_img_processed (algo_params k)) k
          in Inr (k, out))"

fun process_frames ::
  "externals \<Rightarrow> Row list list \<Rightarrow> int \<Rightarrow> int \<Rightarrow> int \<Rightarrow> nat list \<Rightarrow> kernel \<times> batch_output
    \<Rightarrow> (kernel \<times> batch_output) outcome" where
  "process_frames ext input_columns w h output_size [] ko = Inr ko"
| "process_frames ext input_columns w h output_size (i # idxs) ko =
     (case process_frame ext input_columns w h output_size i ko of
        Inl e \<Rightarrow> Inl e
      | Inr ko' \<Rightarrow> process_frames ext input_columns w h output_size idxs ko')"

text \<open>
  The batch entry point. The block buffer is allocated for \<open>output_size * input_count\<close>
  bytes, an \<open>i32\<close> product, before the loop over the frames.
\<close>

definition execute ::
  "externals \<Rightarrow> kernel \<Rightarrow> Row list list \<Rightarrow> out_row list \<Rightarrow> (kernel \<times> batch_output) outcome" where
  "execute ext k0 input_columns column =
     (let k = set_device k0 in
      if \<not> 1 < length input_columns then Inl (Index_out_of_range, gpu_trace k)
      else
        (case check_frame_info ext k (input_columns ! 1) of
           Inl e \<Rightarrow> Inl e
         | Inr k \<Rightarrow>
             let w = width (frame_info k);
                 h = height (frame_info k);
                 output_size = i32 (i32 (w * h) * 16);
                 input_count = i32 (int (length (input_columns ! 0)));
                 out = \<lparr>output_column = column,
                        block_size = i32 (output_size * input_count),
                        block_data = new_block_buffer (i32 (output_size * input_count))
                                       input_count\<rparr>
             in process_frames ext input_columns w h output_size [0..<nat input_count]
                  (k, out)))"

section \<open>Collaborators modelled from the spec, and a test rig\<close>

text \<open>
  Modelled from the spec: \<open>disparityDepthConversion\<close> belongs to the gipuma library.
  "disparity = focalLength * baseline / depth".
\<close>

definition disparityDepthConversion_spec :: "real \<Rightarrow> real \<Rightarrow> real \<Rightarrow> real" where
  "disparityDepthConversion_spec focal b d = focal * b / d"

text \<open>
  Modelled from the spec: \<open>selectViews\<close> belongs to the gipuma library. The subset is
  "the set of other cameras whose viewing-ray angle to the reference camera, at a
  representative scene point, lies within [minAngle, maxAngle]"; the reference camera
  is camera 0. The angle between two cameras is a function of their projection
  matrices and the resolution, and a parameter here. Nothing else is changed.
\<close>

definition selectViews_spec ::
  "(real list \<Rightarrow> real list \<Rightarrow> int \<Rightarrow> int \<Rightarrow> real) \<Rightarrow> CameraParameters \<Rightarrow> int \<Rightarrow> int
    \<Rightarrow> AlgorithmParameters \<Rightarrow> CameraParameters \<times> AlgorithmParameters" where
  "selectViews_spec angle cp w h ap =
     (cp\<lparr>viewSelectionSubset :=
        filter (\<lambda>i. min_angle ap \<le> angle (cam_P (cameras cp ! 0)) (cam_P (cameras cp ! i)) w h
                  \<and> angle (cam_P (cameras cp ! 0)) (cam_P (cameras cp ! i)) w h \<le> max_angle ap)
          [1..<length (cameras cp)]\<rparr>,
      ap)"

text \<open>
  A test double of the collaborators, for concrete runs. The argument blob is a list of
  translations, one for each camera: a camera with translation \<open>t\<close> has the
  identity-like projection matrix of focal length 700 whose fourth column is
  \<open>700 * t\<close>. The rig builder reads the focal length of camera 0 and each camera's
  baseline off its matrix; every other camera is seen at 45 degrees; the solver writes
  the sum of the bound pixels into every result; the frame metadata is the two bytes
  width and height. The fixed arrays hold four cameras.
\<close>

definition test_args :: "nat list \<Rightarrow> GipumaArgs" where
  "test_args ts =
     \<lparr>args_cameras = map (\<lambda>t. [700, 0, 0, 700 * real t, 0, 700, 0, 0, 0, 0, 1, 0]) ts,
      args_min_disparity = 0, args_max_disparity = 0,
      args_min_depth = 1, args_max_depth = 100,
      args_iterations = 8, args_kernel_width = 5, args_kernel_height = 5\<rparr>"

definition test_rig ::
  "CameraParameters_cu \<Rightarrow> CameraParameters \<Rightarrow> CameraParameters_cu \<times> CameraParameters" where
  "test_rig cu cp =
     (cu, cp\<lparr>cameras := map (\<lambda>c. c\<lparr>baseline := \<bar>cam_P c ! 3\<bar> / (cam_P c ! 0)\<rparr>) (cameras cp),
            cp_f := (case cameras cp of [] \<Rightarrow> cp_f cp | c # _ \<Rightarrow> cam_P c ! 0)\<rparr>)"

definition test_solver :: "AlgorithmParameters \<Rightarrow> GlobalState \<Rightarrow> int \<times> GlobalState" where
  "test_solver ap st =
     (0, st\<lparr>gs_lines := (gs_lines st)
           \<lparr>norm4 := map (\<lambda>_. (sum_list (concat (gs_imgs st)), 0, 0, 0))
                        (norm4 (gs_lines st))\<rparr>\<rparr>)"

definition test_frame_info :: "Row list \<Rightarrow> FrameInfo option" where
  "test_frame_info column =
     (case column of
        [] \<Rightarrow> None
      | r # _ \<Rightarrow>
          (case row_buffer r of
             w # h # _ \<Rightarrow> Some \<lparr>width = int w, height = int h\<rparr>
           | _ \<Rightarrow> None))"

definition test_ext :: externals where
  "test_ext =
     \<lparr>ParseFromArray = (\<lambda>bs. if bs = [] then None else Some (test_args bs)),
      new_GlobalState =
        \<lparr>gs_cameras =
           \<lparr>cu_cameras = replicate 4 \<lparr>cu_depthMin = 0, cu_depthMax = 0\<rparr>,
            cu_viewSelectionSubset = replicate 4 0,
            viewSelectionSubsetNumber = 0, cu_cols = 0, cu_rows = 0\<rparr>,
         gs_params = Params_initial,
         gs_lines = \<lparr>lines_n = 0, lines_s = 0, lines_l = 0, norm4 = [], lines_resizes = 0\<rparr>,
         gs_imgs = []\<rparr>,
      new_AlgorithmParameters =
        \<lparr>num_img_processed = 0, min_angle = 0, max_angle = 0, min_disparity = 0,
         max_disparity = 0, depthMin = 0, depthMax = 0, iterations = 0, box_hsize = 0,
         box_vsize = 0, cols = 0, rows = 0\<rparr>,
      new_CameraParameters = \<lparr>cameras = [], cp_f = 0, viewSelectionSubset = []\<rparr>,
      new_Camera = \<lparr>cam_P = replicate 12 0, baseline = 0, cam_depthMin = 0, cam_depthMax = 0\<rparr>,
      getCameraParameters = test_rig,
      selectViews = selectViews_spec (\<lambda>_ _ _ _. 45),
      disparityDepthConversion = disparityDepthConversion_spec,
      to_grayscale = (\<lambda>_ _ bs. map real bs),
      runcuda = test_solver,
      read_frame_info = test_frame_info\<rparr>"

definition test_config :: "nat list \<Rightarrow> nat \<Rightarrow> Config" where
  "test_config ts n_columns =
     \<lparr>config_devices = [0], config_args = ts,
      config_input_columns = replicate n_columns ''column''\<rparr>"

section \<open>Auxiliary notions\<close>

text \<open>
  What the two loops of the planner leave alone: the focal length, the baselines and
  projection matrices, the selected views, the lengths of the fixed arrays, the results
  buffer, the textures, the trace and the kernel's scalar members.
\<close>

definition rig_kept :: "kernel \<Rightarrow> kernel \<Rightarrow> bool" where
  "rig_kept k k' \<longleftrightarrow>
     cp_f (camera_params k') = cp_f (camera_params k) \<and>
     map baseline (cameras (camera_params k')) = map baseline (cameras (camera_params k)) \<and>
     map cam_P (cameras (camera_params k')) = map cam_P (cameras (camera_params k)) \<and>
     viewSelectionSubset (camera_params k') = viewSelectionSubset (camera_params k) \<and>
     length (cu_cameras (gs_cameras (state k'))) = length (cu_cameras (gs_cameras (state k))) \<and>
     length (cu_viewSelectionSubset (gs_cameras (state k'))) =
       length (cu_viewSelectionSubset (gs_cameras (state k))) \<and>
     gs_lines (state k') = gs_lines (state k) \<and>
     gs_imgs (state k') = gs_imgs (state k) \<and>
     gpu_trace k' = gpu_trace k \<and>
     num_cameras k' = num_cameras k \<and>
     frame_info k' = frame_info k \<and>
     device k' = device k \<and>
     valid k' = valid k \<and>
     planned k' = planned k"

text \<open>
  A concrete kernel for the test rig, as the constructor leaves it for cameras with the
  baselines \<open>bs\<close> (depth bounds 1 and 100, focal length 700), at the resolution
  \<open>w\<close> by \<open>h\<close>.
\<close>

definition test_kernel :: "nat list \<Rightarrow> int \<Rightarrow> int \<Rightarrow> kernel" where
  "test_kernel bs w h =
     \<lparr>device = 0,
      valid = \<lparr>success = True, msg = []\<rparr>,
      camera_params =
        \<lparr>cameras = map (\<lambda>b. \<lparr>cam_P = [700, 0, 0, 700 * real b, 0, 700, 0, 0, 0, 0, 1, 0],
                               baseline = real b, cam_depthMin = 0, cam_depthMax = 0\<rparr>) bs,
         cp_f = (if bs = [] then 0 else 700),
         viewSelectionSubset = []\<rparr>,
      algo_params =
        \<lparr>num_img_processed = int (length bs), min_angle = 1, max_angle = 90,
         min_disparity = 0, max_disparity = 0, depthMin = 1, depthMax = 100,
         iterations = 8, box_hsize = 5, box_vsize = 5, cols = 0, rows = 0\<rparr>,
      state = new_GlobalState test_ext,
      num_cameras = int (length bs),
      frame_info = \<lparr>width = w, height = h\<rparr>,
      planned = None,
      gpu_trace = [SetDevice 0]\<rparr>"

text \<open>What is read off an outcome that did not fault.\<close>

definition observe :: "('a \<Rightarrow> 'b) \<Rightarrow> 'a outcome \<Rightarrow> 'b option" where
  "observe g r = (case r of Inl _ \<Rightarrow> None | Inr x \<Rightarrow> Some (g x))"

text \<open>
  A kernel on which the planner's loops stay inside their vectors and arrays: the camera
  count is the number of cameras of the rig, and the fixed arrays of the solver's copy
  have room for them.
\<close>

definition planner_ready :: "kernel \<Rightarrow> bool" where
  "planner_ready k \<longleftrightarrow>
     num_cameras k = int (length (cameras (camera_params k))) \<and>
     length (cameras (camera_params k)) \<le> length (cu_cameras (gs_cameras (state k))) \<and>
     length (cameras (camera_params k)) \<le> length (cu_viewSelectionSubset (gs_cameras (state k))) \<and>
     int (length (cameras (camera_params k))) < 2 ^ 31"

text \<open>
  A valid rig, in the spec's words "configured so at least one auxiliary view
  qualifies": some camera other than the reference camera is seen under an angle within
  the bounds.
\<close>

definition valid_rig :: "(real list \<Rightarrow> real list \<Rightarrow> int \<Rightarrow> int \<Rightarrow> real) \<Rightarrow> kernel \<Rightarrow> bool" where
  "valid_rig angle k \<longleftrightarrow>
     (\<exists>i \<in> set [1..<length (cameras (camera_params k))].
        min_angle (algo_params k)
          \<le> angle (cam_P (cameras (camera_params k) ! 0)) (cam_P (cameras (camera_params k) ! i))
               (width (frame_info k)) (height (frame_info k))
        \<and> angle (cam_P (cameras (camera_params k) ! 0)) (cam_P (cameras (camera_params k) ! i))
               (width (frame_info k)) (height (frame_info k))
          \<le> max_angle (algo_params k))"

text \<open>Counting the texture calls of a trace, and the trace an outcome of the executor ends with.\<close>

definition binds :: "gpu_call list \<Rightarrow> nat" where
  "binds tr = length (filter (\<lambda>c. case c of BindTextures _ \<Rightarrow> True | _ \<Rightarrow> False) tr)"

definition releases :: "gpu_call list \<Rightarrow> nat" where
  "releases tr = length (filter (\<lambda>c. case c of ReleaseTextures _ \<Rightarrow> True | _ \<Rightarrow> False) tr)"

definition final_trace :: "(kernel \<times> batch_output) outcome \<Rightarrow> gpu_call list" where
  "final_trace r = (case r of Inl (e, tr) \<Rightarrow> tr | Inr (k, out) \<Rightarrow> gpu_trace k)"

text \<open>
  The solver's results, frame by frame, told without the loop: the images of frame
  \<open>i\<close> are the grayscale conversions of row \<open>i\<close> of the camera columns;
  \<open>solver_state i\<close> is the solver's state when frame \<open>i\<close> begins, and \<open>solved i\<close>
  the state the solver leaves for frame \<open>i\<close>.
\<close>

definition frame_images :: "externals \<Rightarrow> kernel \<Rightarrow> Row list list \<Rightarrow> nat \<Rightarrow> image list" where
  "frame_images ext k input_columns i =
     map (\<lambda>c. to_grayscale ext (height (frame_info k)) (width (frame_info k))
                (row_buffer (input_columns ! (c * 2) ! i)))
       [0..<nat (num_cameras k)]"

primrec solver_state :: "externals \<Rightarrow> kernel \<Rightarrow> Row list list \<Rightarrow> nat \<Rightarrow> GlobalState" where
  "solver_state ext k input_columns 0 = state k"
| "solver_state ext k input_columns (Suc i) =
     (let st = snd (runcuda ext (algo_params k)
                 ((solver_state ext k input_columns i)
                    \<lparr>gs_imgs := frame_images ext k input_columns i\<rparr>))
      in st\<lparr>gs_imgs := drop (nat (num_img_processed (algo_params k))) (gs_imgs st)\<rparr>)"

definition solved :: "externals \<Rightarrow> kernel \<Rightarrow> Row list list \<Rightarrow> nat \<Rightarrow> GlobalState" where
  "solved ext k input_columns i =
     snd (runcuda ext (algo_params k)
       ((solver_state ext k input_columns i)\<lparr>gs_imgs := frame_images ext k input_columns i\<rparr>))"

text \<open>
  The two texture calls of one frame; the row the executor appends for frame \<open>i\<close>;
  and the block after the results of the first \<open>n\<close> frames were copied into it.
\<close>

definition frame_calls :: "kernel \<Rightarrow> gpu_call list" where
  "frame_calls k =
     [BindTextures (nat (num_cameras k)), ReleaseTextures (num_img_processed (algo_params k))]"

definition result_row :: "int \<Rightarrow> nat \<Rightarrow> out_row" where
  "result_row output_size i =
     \<lparr>out_offset = i32 (output_size * int i), out_size = output_size\<rparr>"

primrec block_after ::
  "externals \<Rightarrow> kernel \<Rightarrow> Row list list \<Rightarrow> int \<Rightarrow> (int \<rightharpoonup> float4) \<Rightarrow> nat
    \<Rightarrow> (int \<rightharpoonup> float4)" where
  "block_after ext k input_columns output_size blk 0 = blk"
| "block_after ext k input_columns output_size blk (Suc n) =
     write_points (block_after ext k input_columns output_size blk n)
       (i32 (output_size * int n))
       (copy_points output_size (solved ext k input_columns n))"

text \<open>
  The number of frame-sets of a batch as the executor counts them, the byte size it
  asserts for each row, and the columns of a batch that hold a row for each frame of
  each camera.
\<close>

definition input_count :: "Row list list \<Rightarrow> nat" where
  "input_count input_columns = nat (i32 (int (length (input_columns ! 0))))"

definition asserted_size :: "kernel \<Rightarrow> int" where
  "asserted_size k = i32 (i32 (width (frame_info k) * height (frame_info k)) * 3)"

definition rows_present :: "kernel \<Rightarrow> Row list list \<Rightarrow> bool" where
  "rows_present k input_columns \<longleftrightarrow>
     (\<forall>c<nat (num_cameras k).
        c * 2 < length input_columns
        \<and> input_count input_columns \<le> length (input_columns ! (c * 2)))"

text \<open>
  Test batches for the test rig with two cameras at the resolution 2 by 1: camera
  columns 0 and 2, metadata columns 1 and 3, two frames. In the second batch the row of
  camera 1 in frame 1 has five bytes instead of six.
\<close>

definition test_row :: "nat list \<Rightarrow> Row" where
  "test_row bs = \<lparr>row_buffer = bs, row_size = length bs\<rparr>"

definition test_batch :: "Row list list" where
  "test_batch =
     [[test_row [1, 2, 3, 4, 5, 6], test_row [6, 5, 4, 3, 2, 1]],
      [test_row [2, 1], test_row [2, 1]],
      [test_row [0, 0, 0, 0, 0, 1], test_row [1, 1, 1, 1, 1, 1]],
      [test_row [2, 1], test_row [2, 1]]]"

definition test_bad_batch :: "Row list list" where
  "test_bad_batch =
     [[test_row [1, 2, 3, 4, 5, 6], test_row [6, 5, 4, 3, 2, 1]],
      [test_row [2, 1], test_row [2, 1]],
      [test_row [0, 0, 0, 0, 0, 1], test_row [1, 1, 1, 1, 1]],
      [test_row [2, 1], test_row [2, 1]]]"

text \<open>The output a batch starts from: the column as it was, and the fresh block buffer.\<close>

definition batch_start :: "kernel \<Rightarrow> Row list list \<Rightarrow> out_row list \<Rightarrow> batch_output" where
  "batch_start k input_columns column =
     \<lparr>output_column = column,
      block_size = i32 (i32 (i32 (width (frame_info k) * height (frame_info k)) * 16)
                         * i32 (int (length (input_columns ! 0)))),
      block_data = new_block_buffer
        (i32 (i32 (i32 (width (frame_info k) * height (frame_info k)) * 16)
               * i32 (int (length (input_columns ! 0)))))
        (i32 (int (length (input_columns ! 0))))\<rparr>"

section \<open>Properties of the planner\<close>

lemma i32_id: "- (2 ^ 31) \<le> x \<Longrightarrow> x < 2 ^ 31 \<Longrightarrow> i32 x = x"
  by (simp add: i32_def)

lemma rig_kept_refl: "rig_kept k k"
  by (simp add: rig_kept_def)

lemma rig_kept_trans: "rig_kept k k1 \<Longrightarrow> rig_kept k1 k2 \<Longrightarrow> rig_kept k k2"
  by (simp add: rig_kept_def)

lemma length_cameras_kept:
  "rig_kept k k' \<Longrightarrow> length (cameras (camera_params k')) = length (cameras (camera_params k))"
  unfolding rig_kept_def by (metis length_map)

lemma baseline_kept:
  assumes "rig_kept k k'" and "i < length (cameras (camera_params k))"
  shows "baseline (cameras (camera_params k') ! i) = baseline (cameras (camera_params k) ! i)"
proof -
  have "map baseline (cameras (camera_params k')) ! i = map baseline (cameras (camera_params k)) ! i"
    using assms(1) by (simp add: rig_kept_def)
  then show ?thesis
    using assms(2) length_cameras_kept [OF assms(1)] by simp
qed

lemma plan_camera_Inr:
  assumes "plan_camera ext i k = Inr k'"
  shows "algo_params k' = (algo_params k)
           \<lparr>min_disparity := disparityDepthConversion ext (cp_f (camera_params k))
              (baseline (cameras (camera_params k) ! i)) (depthMax (algo_params k)),
            max_disparity := disparityDepthConversion ext (cp_f (camera_params k))
              (baseline (cameras (camera_params k) ! i)) (depthMin (algo_params k))\<rparr>"
    and "rig_kept k k'"
    and "i < length (cameras (camera_params k))"
  using assms
  by (auto simp: plan_camera_def rig_kept_def Let_def map_update list_eq_iff_nth_eq
      nth_list_update split: if_splits)

lemma plan_camera_Inl:
  "plan_camera ext i k = Inl (e, tr) \<Longrightarrow> tr = gpu_trace k"
  by (auto simp: plan_camera_def Let_def split: if_splits)

lemma plan_camera_succeeds:
  "i < length (cameras (camera_params k)) \<Longrightarrow> i < length (cu_cameras (gs_cameras (state k)))
    \<Longrightarrow> \<exists>k'. plan_camera ext i k = Inr k'"
  by (simp add: plan_camera_def Let_def)

lemma plan_cameras_append:
  "plan_cameras ext (xs @ ys) k =
     (case plan_cameras ext xs k of Inl e \<Rightarrow> Inl e | Inr k' \<Rightarrow> plan_cameras ext ys k')"
  by (induction xs arbitrary: k) (auto split: sum.splits)

lemma plan_cameras_kept:
  "plan_cameras ext idxs k = Inr k' \<Longrightarrow>
     rig_kept k k' \<and> depthMin (algo_params k') = depthMin (algo_params k)
       \<and> depthMax (algo_params k') = depthMax (algo_params k)"
proof (induction idxs arbitrary: k)
  case Nil
  then show ?case by (simp add: rig_kept_refl)
next
  case (Cons i idxs)
  then obtain k1 where s: "plan_camera ext i k = Inr k1" and r: "plan_cameras ext idxs k1 = Inr k'"
    by (auto split: sum.splits)
  from plan_camera_Inr [OF s] Cons.IH [OF r] show ?case
    by (auto intro: rig_kept_trans)
qed

lemma plan_cameras_Inl:
  "plan_cameras ext idxs k = Inl (e, tr) \<Longrightarrow> tr = gpu_trace k"
proof (induction idxs arbitrary: k)
  case Nil
  then show ?case by simp
next
  case (Cons i idxs)
  show ?case
  proof (cases "plan_camera ext i k")
    case (Inl a)
    with Cons.prems show ?thesis by (auto dest: plan_camera_Inl)
  next
    case (Inr k1)
    with Cons.prems have "plan_cameras ext idxs k1 = Inl (e, tr)" by simp
    from Cons.IH [OF this] plan_camera_Inr(2) [OF Inr] show ?thesis
      by (simp add: rig_kept_def)
  qed
qed

lemma plan_cameras_upt:
  "plan_cameras ext [0..<n] k = Inr k' \<Longrightarrow>
     n \<le> length (cameras (camera_params k)) \<and>
     algo_params k' =
       (if n = 0 then algo_params k
        else (algo_params k)
          \<lparr>min_disparity := disparityDepthConversion ext (cp_f (camera_params k))
             (baseline (cameras (camera_params k) ! (n - 1))) (depthMax (algo_params k)),
           max_disparity := disparityDepthConversion ext (cp_f (camera_params k))
             (baseline (cameras (camera_params k) ! (n - 1))) (depthMin (algo_params k))\<rparr>)"
proof (induction n arbitrary: k')
  case 0
  then show ?case by simp
next
  case (Suc n)
  from Suc.prems obtain km where m: "plan_cameras ext [0..<n] k = Inr km"
    and l: "plan_camera ext n km = Inr k'"
    by (auto simp: plan_cameras_append split: sum.splits)
  note ih = Suc.IH [OF m]
  note kept = plan_cameras_kept [OF m]
  note step = plan_camera_Inr [OF l]
  have len: "n < length (cameras (camera_params k))"
    using step(3) length_cameras_kept [of k km] kept by simp
  have b: "baseline (cameras (camera_params km) ! n) = baseline (cameras (camera_params k) ! n)"
    using baseline_kept [of k km n] kept len by simp
  have f: "cp_f (camera_params km) = cp_f (camera_params k)"
    using kept by (simp add: rig_kept_def)
  show ?case
    using ih len step(1) b f kept by (auto split: if_splits)
qed

lemma plan_cameras_succeeds:
  "\<forall>i\<in>set idxs. i < length (cameras (camera_params k)) \<and> i < length (cu_cameras (gs_cameras (state k)))
    \<Longrightarrow> \<exists>k'. plan_cameras ext idxs k = Inr k'"
proof (induction idxs arbitrary: k)
  case Nil
  then show ?case by simp
next
  case (Cons i idxs)
  then obtain k1 where s: "plan_camera ext i k = Inr k1"
    using plan_camera_succeeds [of i k ext] by auto
  have "rig_kept k k1" by (rule plan_camera_Inr(2) [OF s])
  then have "\<forall>i\<in>set idxs. i < length (cameras (camera_params k1)) \<and> i < length (cu_cameras (gs_cameras (state k1)))"
    using Cons.prems length_cameras_kept [of k k1] by (simp add: rig_kept_def)
  from Cons.IH [OF this] s show ?case by simp
qed

lemma copy_view_Inr:
  "copy_view i k = Inr k' \<Longrightarrow> rig_kept k k' \<and> algo_params k' = algo_params k"
  by (auto simp: copy_view_def rig_kept_def Let_def split: if_splits)

lemma copy_view_Inl: "copy_view i k = Inl (e, tr) \<Longrightarrow> tr = gpu_trace k"
  by (auto simp: copy_view_def Let_def split: if_splits)

lemma copy_views_Inr:
  "copy_views idxs k = Inr k' \<Longrightarrow> rig_kept k k' \<and> algo_params k' = algo_params k"
proof (induction idxs arbitrary: k)
  case Nil
  then show ?case by (simp add: rig_kept_refl)
next
  case (Cons i idxs)
  then obtain k1 where s: "copy_view i k = Inr k1" and r: "copy_views idxs k1 = Inr k'"
    by (auto split: sum.splits)
  from copy_view_Inr [OF s] Cons.IH [OF r] show ?case
    by (auto intro: rig_kept_trans)
qed

lemma copy_views_Inl: "copy_views idxs k = Inl (e, tr) \<Longrightarrow> tr = gpu_trace k"
proof (induction idxs arbitrary: k)
  case Nil
  then show ?case by simp
next
  case (Cons i idxs)
  show ?case
  proof (cases "copy_view i k")
    case (Inl a)
    with Cons.prems show ?thesis by (auto dest: copy_view_Inl)
  next
    case (Inr k1)
    with Cons.prems have "copy_views idxs k1 = Inl (e, tr)" by simp
    from Cons.IH [OF this] copy_view_Inr [OF Inr] show ?thesis
      by (simp add: rig_kept_def)
  qed
qed

lemma copy_views_succeeds:
  "\<forall>i\<in>set idxs. i < length (cu_viewSelectionSubset (gs_cameras (state k)))
       \<and> i < length (viewSelectionSubset (camera_params k))
    \<Longrightarrow> \<exists>k'. copy_views idxs k = Inr k'"
proof (induction idxs arbitrary: k)
  case Nil
  then show ?case by simp
next
  case (Cons i idxs)
  then obtain k1 where s: "copy_view i k = Inr k1"
    by (auto simp: copy_view_def Let_def)
  have "rig_kept k k1" using copy_view_Inr [OF s] by simp
  then have "\<forall>i\<in>set idxs. i < length (cu_viewSelectionSubset (gs_cameras (state k1)))
       \<and> i < length (viewSelectionSubset (camera_params k1))"
    using Cons.prems by (simp add: rig_kept_def)
  from Cons.IH [OF this] s show ?case by simp
qed

lemma views_selected_simps:
  "gpu_trace (views_selected ext k) = gpu_trace k @ [SetDevice (device k)]"
  "num_cameras (views_selected ext k) = num_cameras k"
  "frame_info (views_selected ext k) = frame_info k"
  "state (views_selected ext k) = state k"
  "device (views_selected ext k) = device k"
  "valid (views_selected ext k) = valid k"
  "planned (views_selected ext k) = planned k"
  "camera_params (views_selected ext k) =
     fst (selectViews ext (camera_params k) (width (frame_info k)) (height (frame_info k)) (algo_params k))"
  "algo_params (views_selected ext k) =
     snd (selectViews ext (camera_params k) (width (frame_info k)) (height (frame_info k)) (algo_params k))"
  by (simp_all add: views_selected_def Let_def set_device_def)

lemma new_frame_info_Inl:
  assumes "new_frame_info ext k = Inl (e, tr)"
  shows "tr = gpu_trace k @ [SetDevice (device k)]"
proof -
  let ?ks = "views_selected ext k"
  have g: "gpu_trace ?ks = gpu_trace k @ [SetDevice (device k)]"
    by (rule views_selected_simps)
  show ?thesis
    using assms g
    by (auto simp: new_frame_info_def Let_def rig_kept_def
        split: if_splits sum.splits
        dest!: plan_cameras_Inl copy_views_Inl plan_cameras_kept)
qed

lemma finish_plan_simps:
  "algo_params (finish_plan w h sv k) = (algo_params k)\<lparr>cols := w, rows := h\<rparr>"
  "camera_params (finish_plan w h sv k) = camera_params k"
  "gs_lines (state (finish_plan w h sv k)) =
     (resize (i32 (h * w)) ((gs_lines (state k))\<lparr>lines_n := i32 (h * w)\<rparr>))
       \<lparr>lines_s := w, lines_l := w\<rparr>"
  "gs_imgs (state (finish_plan w h sv k)) = gs_imgs (state k)"
  "cu_cameras (gs_cameras (state (finish_plan w h sv k))) = cu_cameras (gs_cameras (state k))"
  "cu_viewSelectionSubset (gs_cameras (state (finish_plan w h sv k))) =
     cu_viewSelectionSubset (gs_cameras (state k))"
  "gpu_trace (finish_plan w h sv k) = gpu_trace k"
  "num_cameras (finish_plan w h sv k) = num_cameras k"
  "frame_info (finish_plan w h sv k) = frame_info k"
  "device (finish_plan w h sv k) = device k"
  "valid (finish_plan w h sv k) = valid k"
  "planned (finish_plan w h sv k) = planned k"
  by (simp_all add: finish_plan_def Let_def)

lemma new_frame_info_cases:
  assumes "new_frame_info ext k = Inr k'"
  obtains k1 k2 where
    "0 < i32 (int (length (viewSelectionSubset (camera_params (views_selected ext k)))))"
    and "plan_cameras ext [0..<nat (num_cameras k)] (views_selected ext k) = Inr k1"
    and "copy_views [0..<nat (i32 (int (length (viewSelectionSubset
           (camera_params (views_selected ext k))))))] k1 = Inr k2"
    and "k' = finish_plan (width (frame_info k)) (height (frame_info k))
           (i32 (int (length (viewSelectionSubset (camera_params (views_selected ext k)))))) k2"
  using assms
  by (auto simp: new_frame_info_def Let_def views_selected_simps split: if_splits sum.splits)

lemma new_frame_info_Inr:
  assumes "new_frame_info ext k = Inr k'"
  shows "nat (num_cameras k) \<le> length (cameras (camera_params (views_selected ext k)))"
    and "algo_params k' =
      (if nat (num_cameras k) = 0 then algo_params (views_selected ext k)
       else (algo_params (views_selected ext k))
         \<lparr>min_disparity := disparityDepthConversion ext
            (cp_f (camera_params (views_selected ext k)))
            (baseline (cameras (camera_params (views_selected ext k)) ! (nat (num_cameras k) - 1)))
            (depthMax (algo_params (views_selected ext k))),
          max_disparity := disparityDepthConversion ext
            (cp_f (camera_params (views_selected ext k)))
            (baseline (cameras (camera_params (views_selected ext k)) ! (nat (num_cameras k) - 1)))
            (depthMin (algo_params (views_selected ext k)))\<rparr>)
      \<lparr>cols := width (frame_info k), rows := height (frame_info k)\<rparr>"
    and "rig_kept ((views_selected ext k)\<lparr>state := (state k)\<lparr>gs_lines := gs_lines (state k')\<rparr>\<rparr>) k'"
    and "viewSelectionSubset (camera_params k') \<noteq> []"
    and "gs_lines (state k') =
      (resize (i32 (height (frame_info k) * width (frame_info k)))
         ((gs_lines (state k))\<lparr>lines_n := i32 (height (frame_info k) * width (frame_info k))\<rparr>))
       \<lparr>lines_s := width (frame_info k), lines_l := width (frame_info k)\<rparr>"
proof -
  let ?ks = "views_selected ext k"
  from assms obtain k1 k2 where
    pos: "0 < i32 (int (length (viewSelectionSubset (camera_params ?ks))))"
    and p: "plan_cameras ext [0..<nat (num_cameras k)] ?ks = Inr k1"
    and c: "copy_views [0..<nat (i32 (int (length (viewSelectionSubset (camera_params ?ks)))))] k1
              = Inr k2"
    and f: "k' = finish_plan (width (frame_info k)) (height (frame_info k))
           (i32 (int (length (viewSelectionSubset (camera_params ?ks))))) k2"
    by (rule new_frame_info_cases)
  note pk = plan_cameras_kept [OF p]
  note pu = plan_cameras_upt [OF p]
  note ck = copy_views_Inr [OF c]
  have kept: "rig_kept ?ks k2"
    using pk ck by (blast intro: rig_kept_trans)
  show "nat (num_cameras k) \<le> length (cameras (camera_params ?ks))"
    using pu by simp
  show "algo_params k' =
      (if nat (num_cameras k) = 0 then algo_params ?ks
       else (algo_params ?ks)
         \<lparr>min_disparity := disparityDepthConversion ext (cp_f (camera_params ?ks))
            (baseline (cameras (camera_params ?ks) ! (nat (num_cameras k) - 1)))
            (depthMax (algo_params ?ks)),
          max_disparity := disparityDepthConversion ext (cp_f (camera_params ?ks))
            (baseline (cameras (camera_params ?ks) ! (nat (num_cameras k) - 1)))
            (depthMin (algo_params ?ks))\<rparr>)
      \<lparr>cols := width (frame_info k), rows := height (frame_info k)\<rparr>"
    using pu ck by (simp add: f finish_plan_simps)
  show "rig_kept (?ks\<lparr>state := (state k)\<lparr>gs_lines := gs_lines (state k')\<rparr>\<rparr>) k'"
    using kept by (simp add: f rig_kept_def finish_plan_simps views_selected_simps)
  have "viewSelectionSubset (camera_params ?ks) \<noteq> []"
    using pos by (auto simp: i32_def)
  then show "viewSelectionSubset (camera_params k') \<noteq> []"
    using kept by (simp add: f rig_kept_def finish_plan_simps)
  show "gs_lines (state k') =
      (resize (i32 (height (frame_info k) * width (frame_info k)))
         ((gs_lines (state k))\<lparr>lines_n := i32 (height (frame_info k) * width (frame_info k))\<rparr>))
       \<lparr>lines_s := width (frame_info k), lines_l := width (frame_info k)\<rparr>"
    using kept by (simp add: f rig_kept_def finish_plan_simps views_selected_simps)
qed

lemmas test_defs =
  test_kernel_def test_ext_def test_args_def test_rig_def test_config_def test_solver_def
  test_frame_info_def selectViews_spec_def disparityDepthConversion_spec_def

lemmas planner_defs =
  new_frame_info_def views_selected_def set_device_def plan_camera_def copy_view_def
  finish_plan_def resize_def Let_def

lemma constructor_test_kernel:
  "GipumaKernel test_ext (test_config [10, 10] 4) = Inr (test_kernel [10, 10] 0 0)"
  by (simp add: test_defs GipumaKernel_def initial_kernel_def configure_def columns_guard_def
      lnot_def read_camera_def Let_def upt_conv_Cons)

section \<open>Claims about the planner\<close>

text \<open>
  Claim C8. Whenever the planner runs to its end for a resolution \<open>width\<close> by
  \<open>height\<close> (non-negative, with a product inside the \<open>i32\<close> range), the results
  buffer holds exactly \<open>width * height\<close> elements, \<open>n\<close> is that number, and both
  strides \<open>s\<close> and \<open>l\<close> are the width.
\<close>

theorem planner_resizes_results_buffer:
  assumes "new_frame_info ext k = Inr k'"
    and "0 \<le> width (frame_info k)" and "0 \<le> height (frame_info k)"
    and "width (frame_info k) * height (frame_info k) < 2 ^ 31"
  shows "length (norm4 (gs_lines (state k'))) = nat (width (frame_info k) * height (frame_info k))
    \<and> lines_n (gs_lines (state k')) = width (frame_info k) * height (frame_info k)
    \<and> lines_s (gs_lines (state k')) = width (frame_info k)
    \<and> lines_l (gs_lines (state k')) = width (frame_info k)"
proof -
  have "0 \<le> height (frame_info k) * width (frame_info k)"
    using assms(2,3) by simp
  then have "i32 (height (frame_info k) * width (frame_info k))
      = width (frame_info k) * height (frame_info k)"
    using assms(4) by (simp add: i32_id mult.commute)
  then show ?thesis
    by (simp add: new_frame_info_Inr(5) [OF assms(1)] resize_def)
qed

theorem planner_resizes_results_buffer_witness:
  "\<exists>k'. new_frame_info test_ext (test_kernel [10, 10] 2 3) = Inr k'
     \<and> length (norm4 (gs_lines (state k'))) = 6
     \<and> lines_n (gs_lines (state k')) = 6
     \<and> lines_s (gs_lines (state k')) = 2
     \<and> lines_l (gs_lines (state k')) = 2"
proof -
  have "\<exists>k'. new_frame_info test_ext (test_kernel [10, 10] 2 3) = Inr k'"
    by (simp add: test_defs planner_defs i32_def upt_conv_Cons)
  then obtain k' where r: "new_frame_info test_ext (test_kernel [10, 10] 2 3) = Inr k'" ..
  have f: "frame_info (test_kernel [10, 10] 2 3) = \<lparr>width = 2, height = 3\<rparr>"
    by (simp add: test_kernel_def)
  from planner_resizes_results_buffer [OF r] r show ?thesis
    by (simp add: f)
qed

text \<open>
  After a run of the planner for at least one camera, both disparity bounds come from
  the baseline of the camera with the last index.
\<close>

lemma planner_disparity:
  assumes "new_frame_info ext k = Inr k'" and "1 \<le> num_cameras k"
  shows "min_disparity (algo_params k') =
      disparityDepthConversion ext (cp_f (camera_params k'))
        (baseline (cameras (camera_params k') ! (nat (num_cameras k') - 1)))
        (depthMax (algo_params k'))"
    and "max_disparity (algo_params k') =
      disparityDepthConversion ext (cp_f (camera_params k'))
        (baseline (cameras (camera_params k') ! (nat (num_cameras k') - 1)))
        (depthMin (algo_params k'))"
    and "nat (num_cameras k') \<le> length (cameras (camera_params k'))"
proof -
  let ?ks = "views_selected ext k"
  let ?kl = "?ks\<lparr>state := (state k)\<lparr>gs_lines := gs_lines (state k')\<rparr>\<rparr>"
  note facts = new_frame_info_Inr [OF assms(1)]
  have kept: "rig_kept ?kl k'" by (rule facts(3))
  have n: "num_cameras k' = num_cameras k"
    using kept by (simp add: rig_kept_def views_selected_simps)
  have len: "nat (num_cameras k) - 1 < length (cameras (camera_params ?kl))"
    using facts(1) assms(2) by simp
  have b: "baseline (cameras (camera_params k') ! (nat (num_cameras k) - 1))
      = baseline (cameras (camera_params ?ks) ! (nat (num_cameras k) - 1))"
    using baseline_kept [OF kept len] by simp
  have f: "cp_f (camera_params k') = cp_f (camera_params ?ks)"
    using kept by (simp add: rig_kept_def)
  have pos: "nat (num_cameras k) \<noteq> 0"
    using assms(2) by simp
  show "min_disparity (algo_params k') =
      disparityDepthConversion ext (cp_f (camera_params k'))
        (baseline (cameras (camera_params k') ! (nat (num_cameras k') - 1)))
        (depthMax (algo_params k'))"
    using pos b by (simp add: facts(2) n f)
  show "max_disparity (algo_params k') =
      disparityDepthConversion ext (cp_f (camera_params k'))
        (baseline (cameras (camera_params k') ! (nat (num_cameras k') - 1)))
        (depthMin (algo_params k'))"
    using pos b by (simp add: facts(2) n f)
  show "nat (num_cameras k') \<le> length (cameras (camera_params k'))"
    using facts(1) length_cameras_kept [OF kept] n by simp
qed

text \<open>
  Claim C10. For a rig of two or more cameras, after the planner has run, the one pair
  of disparity bounds in the algorithm parameters is the conversion of the baseline of
  the camera with the last index, \<open>num_cameras - 1\<close>: the loop assigns the shared
  fields in every pass, and no other camera's baseline enters the result.
\<close>

theorem disparity_from_last_camera:
  assumes "new_frame_info ext k = Inr k'" and "2 \<le> num_cameras k"
  shows "min_disparity (algo_params k') =
      disparityDepthConversion ext (cp_f (camera_params k'))
        (baseline (cameras (camera_params k') ! (nat (num_cameras k') - 1)))
        (depthMax (algo_params k'))
    \<and> max_disparity (algo_params k') =
      disparityDepthConversion ext (cp_f (camera_params k'))
        (baseline (cameras (camera_params k') ! (nat (num_cameras k') - 1)))
        (depthMin (algo_params k'))"
proof -
  have "1 \<le> num_cameras k" using assms(2) by simp
  from planner_disparity(1,2) [OF assms(1) this] show ?thesis by simp
qed

theorem disparity_from_last_camera_witness:
  "\<exists>k'. new_frame_info test_ext (test_kernel [0, 10] 2 3) = Inr k'
     \<and> map baseline (cameras (camera_params k')) = [0, 10]
     \<and> min_disparity (algo_params k') = 70
     \<and> max_disparity (algo_params k') = 7000"
proof -
  have "\<exists>k'. new_frame_info test_ext (test_kernel [0, 10] 2 3) = Inr k'
      \<and> map baseline (cameras (camera_params k')) = [0, 10]
      \<and> baseline (cameras (camera_params k') ! (nat (num_cameras k') - 1)) = 10
      \<and> cp_f (camera_params k') = 700
      \<and> depthMin (algo_params k') = 1 \<and> depthMax (algo_params k') = 100"
    by (simp add: test_defs planner_defs i32_def upt_conv_Cons)
  then obtain k' where r: "new_frame_info test_ext (test_kernel [0, 10] 2 3) = Inr k'"
    and bs: "map baseline (cameras (camera_params k')) = [0, 10]"
    and v: "baseline (cameras (camera_params k') ! (nat (num_cameras k') - 1)) = 10"
      "cp_f (camera_params k') = 700" "depthMin (algo_params k') = 1"
      "depthMax (algo_params k') = 100"
    by (elim exE conjE)
  have n: "2 \<le> num_cameras (test_kernel [0, 10] 2 3)"
    by (simp add: test_kernel_def)
  have c: "disparityDepthConversion test_ext = disparityDepthConversion_spec"
    by (simp add: test_ext_def)
  from disparity_from_last_camera [OF r n] r bs show ?thesis
    unfolding v c by (simp add: disparityDepthConversion_spec_def)
qed

text \<open>
  Claim C2, as amended. After the planner has run for a rig of at least one camera, with
  the conversion the spec gives, \<open>min_disparity = baseline * f / depthMax\<close> and
  \<open>max_disparity = baseline * f / depthMin\<close> hold for the baseline of the camera with
  the last index and the shared focal length \<open>f\<close>. The witness is the rig of the
  spec's scenario: two cameras of baseline 10, focal length 700, depths 1 and 100.
\<close>

theorem planner_disparity_bounds:
  assumes "new_frame_info ext k = Inr k'" and "1 \<le> num_cameras k"
    and "disparityDepthConversion ext = disparityDepthConversion_spec"
  shows "min_disparity (algo_params k') =
      baseline (cameras (camera_params k') ! (nat (num_cameras k') - 1))
        * cp_f (camera_params k') / depthMax (algo_params k')
    \<and> max_disparity (algo_params k') =
      baseline (cameras (camera_params k') ! (nat (num_cameras k') - 1))
        * cp_f (camera_params k') / depthMin (algo_params k')"
  using planner_disparity(1,2) [OF assms(1,2)]
  by (simp add: assms(3) disparityDepthConversion_spec_def mult.commute)

theorem planner_disparity_bounds_witness:
  "\<exists>k'. new_frame_info test_ext (test_kernel [10, 10] 640 480) = Inr k'
     \<and> min_disparity (algo_params k') = 70
     \<and> max_disparity (algo_params k') = 7000"
proof -
  have "\<exists>k'. new_frame_info test_ext (test_kernel [10, 10] 640 480) = Inr k'
      \<and> baseline (cameras (camera_params k') ! (nat (num_cameras k') - 1)) = 10
      \<and> cp_f (camera_params k') = 700
      \<and> depthMin (algo_params k') = 1 \<and> depthMax (algo_params k') = 100"
    by (simp add: test_defs planner_defs i32_def upt_conv_Cons)
  then obtain k' where r: "new_frame_info test_ext (test_kernel [10, 10] 640 480) = Inr k'"
    and v: "baseline (cameras (camera_params k') ! (nat (num_cameras k') - 1)) = 10"
      "cp_f (camera_params k') = 700" "depthMin (algo_params k') = 1"
      "depthMax (algo_params k') = 100"
    by (elim exE conjE)
  have n: "1 \<le> num_cameras (test_kernel [10, 10] 640 480)"
    by (simp add: test_kernel_def)
  have c: "disparityDepthConversion test_ext = disparityDepthConversion_spec"
    by (simp add: test_ext_def)
  from planner_disparity_bounds [OF r n c] r show ?thesis
    unfolding v by simp
qed

text \<open>
  The claim as stated, for each camera's baseline, fails where the baselines differ:
  with the reference camera at baseline 0 and a second camera at baseline 10, the
  planner leaves \<open>min_disparity = 70\<close> and \<open>max_disparity = 7000\<close>, while camera 0
  would give \<open>0 * 700 / 100 = 0\<close> and \<open>0 * 700 / 1 = 0\<close>.
\<close>

theorem disparity_not_for_each_camera:
  "observe (\<lambda>k'. (min_disparity (algo_params k'), max_disparity (algo_params k'),
              map baseline (cameras (camera_params k')), cp_f (camera_params k'),
              depthMin (algo_params k'), depthMax (algo_params k')))
     (new_frame_info test_ext (test_kernel [0, 10] 2 3))
   = Some (70, 7000, [0, 10], 700, 1, 100)
   \<and> (70 :: real) \<noteq> 0 * 700 / 100 \<and> (7000 :: real) \<noteq> 0 * 700 / 1"
  by (simp add: observe_def test_defs planner_defs i32_def upt_conv_Cons)

lemma new_frame_info_kernel_kept:
  assumes "new_frame_info ext k = Inr k'"
  shows "frame_info k' = frame_info k" and "num_cameras k' = num_cameras k"
    and "gpu_trace k' = gpu_trace k @ [SetDevice (device k)]"
    and "gs_imgs (state k') = gs_imgs (state k)"
    and "device k' = device k" and "valid k' = valid k" and "planned k' = planned k"
    and "cp_f (camera_params k') = cp_f (camera_params (views_selected ext k))"
    and "map baseline (cameras (camera_params k'))
          = map baseline (cameras (camera_params (views_selected ext k)))"
    and "viewSelectionSubset (camera_params k')
          = viewSelectionSubset (camera_params (views_selected ext k))"
  using new_frame_info_Inr(3) [OF assms]
  by (simp_all add: rig_kept_def views_selected_simps)

lemma new_frame_info_succeeds:
  assumes sub: "viewSelectionSubset (camera_params (views_selected ext k)) \<noteq> []"
    and small: "int (length (viewSelectionSubset (camera_params (views_selected ext k)))) < 2 ^ 31"
    and cams: "nat (num_cameras k) \<le> length (cameras (camera_params (views_selected ext k)))"
      "nat (num_cameras k) \<le> length (cu_cameras (gs_cameras (state k)))"
    and room: "length (viewSelectionSubset (camera_params (views_selected ext k)))
      \<le> length (cu_viewSelectionSubset (gs_cameras (state k)))"
  shows "\<exists>k'. new_frame_info ext k = Inr k'"
proof -
  let ?ks = "views_selected ext k"
  let ?m = "length (viewSelectionSubset (camera_params ?ks))"
  have sv: "i32 (int ?m) = int ?m"
    using small by (simp add: i32_id)
  have pos: "0 < i32 (int ?m)"
    using sub by (simp add: sv)
  have "\<forall>i\<in>set [0..<nat (num_cameras ?ks)]. i < length (cameras (camera_params ?ks))
      \<and> i < length (cu_cameras (gs_cameras (state ?ks)))"
    using cams by (simp add: views_selected_simps)
  then obtain k1 where p: "plan_cameras ext [0..<nat (num_cameras ?ks)] ?ks = Inr k1"
    using plan_cameras_succeeds by blast
  have kept: "rig_kept ?ks k1"
    using plan_cameras_kept [OF p] by simp
  have nm: "nat (i32 (int ?m)) = ?m"
    by (simp only: sv nat_int)
  have "\<forall>i\<in>set [0..<nat (i32 (int ?m))]. i < length (cu_viewSelectionSubset (gs_cameras (state k1)))
      \<and> i < length (viewSelectionSubset (camera_params k1))"
    unfolding nm using kept room by (simp add: rig_kept_def views_selected_simps(4))
  then obtain k2 where c: "copy_views [0..<nat (i32 (int ?m))] k1 = Inr k2"
    using copy_views_succeeds by blast
  show ?thesis
    using pos p c by (simp add: new_frame_info_def Let_def)
qed

text \<open>
  Claim C4. With the view selection of the spec, on a kernel whose arrays have room for
  its cameras: for a valid rig the planner runs to its end; and whenever it does, the
  selected subset is not empty and each of its indices lies in \<open>[0, num_cameras)\<close>.
\<close>

theorem view_selection_nonempty_in_range:
  assumes "selectViews ext = selectViews_spec angle" and "planner_ready k"
  shows "(valid_rig angle k \<longrightarrow> (\<exists>k'. new_frame_info ext k = Inr k'))
    \<and> (\<forall>k'. new_frame_info ext k = Inr k' \<longrightarrow>
          viewSelectionSubset (camera_params k') \<noteq> []
          \<and> (\<forall>i \<in> set (viewSelectionSubset (camera_params k')).
                0 \<le> int i \<and> int i < num_cameras k'))"
proof (intro conjI impI allI ballI)
  let ?ks = "views_selected ext k"
  let ?cs = "cameras (camera_params k)"
  let ?ok = "\<lambda>i. min_angle (algo_params k)
          \<le> angle (cam_P (?cs ! 0)) (cam_P (?cs ! i)) (width (frame_info k)) (height (frame_info k))
        \<and> angle (cam_P (?cs ! 0)) (cam_P (?cs ! i)) (width (frame_info k)) (height (frame_info k))
          \<le> max_angle (algo_params k)"
  have sub: "viewSelectionSubset (camera_params ?ks) = filter ?ok [1..<length ?cs]"
    and cs: "cameras (camera_params ?ks) = ?cs"
    by (simp_all add: views_selected_simps assms(1) selectViews_spec_def set_device_def)
  have len: "length (filter ?ok [1..<length ?cs]) \<le> length ?cs"
    by (rule order_trans [OF length_filter_le]) simp
  {
    assume "valid_rig angle k"
    then have ne: "filter ?ok [1..<length ?cs] \<noteq> []"
      unfolding valid_rig_def filter_empty_conv by blast
    show "\<exists>k'. new_frame_info ext k = Inr k'"
    proof (rule new_frame_info_succeeds)
      show "viewSelectionSubset (camera_params ?ks) \<noteq> []"
        unfolding sub by (rule ne)
      show "int (length (viewSelectionSubset (camera_params ?ks))) < 2 ^ 31"
        using len assms(2) by (simp add: sub planner_ready_def)
      show "nat (num_cameras k) \<le> length (cameras (camera_params ?ks))"
        using assms(2) by (simp add: cs planner_ready_def)
      show "nat (num_cameras k) \<le> length (cu_cameras (gs_cameras (state k)))"
        using assms(2) by (simp add: planner_ready_def)
      show "length (viewSelectionSubset (camera_params ?ks))
          \<le> length (cu_viewSelectionSubset (gs_cameras (state k)))"
        using len assms(2) by (simp add: sub planner_ready_def)
    qed
  }
  fix k'
  assume r: "new_frame_info ext k = Inr k'"
  show "viewSelectionSubset (camera_params k') \<noteq> []"
    by (rule new_frame_info_Inr(4) [OF r])
  fix i
  assume "i \<in> set (viewSelectionSubset (camera_params k'))"
  then have "i \<in> set (filter ?ok [1..<length ?cs])"
    using new_frame_info_kernel_kept(10) [OF r] by (simp only: sub)
  then have "i < length ?cs" by simp
  then show "int i < num_cameras k'"
    using assms(2) new_frame_info_kernel_kept(2) [OF r] by (simp add: planner_ready_def)
qed simp

theorem view_selection_nonempty_in_range_witness:
  "\<exists>k'. new_frame_info test_ext (test_kernel [0, 10, 20] 2 3) = Inr k'
     \<and> viewSelectionSubset (camera_params k') = [1, 2]
     \<and> num_cameras k' = 3"
proof -
  let ?k = "test_kernel [0, 10, 20] 2 3"
  have s: "selectViews test_ext = selectViews_spec (\<lambda>_ _ _ _. 45)"
    by (simp add: test_ext_def)
  have p: "planner_ready ?k"
    by (simp add: planner_ready_def test_kernel_def test_ext_def)
  have v: "valid_rig (\<lambda>_ _ _ _. 45) ?k"
    by (auto simp: valid_rig_def test_kernel_def)
  from view_selection_nonempty_in_range [OF s p] v
  obtain k' where r: "new_frame_info test_ext ?k = Inr k'"
    by blast
  have "observe (\<lambda>k'. (viewSelectionSubset (camera_params k'), num_cameras k'))
      (new_frame_info test_ext ?k) = Some ([1, 2], 3)"
    by (simp add: observe_def test_defs planner_defs i32_def upt_conv_Cons)
  with r show ?thesis
    by (simp add: observe_def)
qed

section \<open>Claims about construction and configuration errors\<close>

text \<open>When the guard of the constructor holds: no cameras and two columns, or cameras and no column.\<close>

lemma columns_guard_iff:
  "columns_guard (int n) c \<longleftrightarrow> (n = 0 \<and> c = 2) \<or> (n \<noteq> 0 \<and> c = 0)"
  by (auto simp: columns_guard_def lnot_def)

lemma string_of_nat_digit: "n < 10 \<Longrightarrow> string_of_nat n = [digit_char n]"
  by (simp add: string_of_nat.simps)

text \<open>
  Claim C1 fails on the code. Three cameras with five input columns is a mismatch
  (six are expected), and the guard does not hold: the constructor reports success
  and goes on to read the three cameras and build the rig.
\<close>

theorem three_cameras_five_columns_accepted:
  "\<not> columns_guard 3 5
   \<and> observe (\<lambda>k. (success (validate k \<lparr>success = False, msg = []\<rparr>),
                   length (cameras (camera_params k))))
       (GipumaKernel test_ext (test_config [10, 10, 10] 5)) = Some (True, 3)"
  by (simp add: observe_def validate_def test_defs GipumaKernel_def initial_kernel_def
      configure_def columns_guard_def lnot_def read_camera_def Let_def upt_conv_Cons)

text \<open>
  Claim C5, as amended. A mismatch that the constructor's guard detects is surfaced
  through the validity status alone: construction returns a kernel, \<open>validate\<close>
  reports failure with the message carrying both counts, and neither the rig nor the
  solver state has been touched. An empty view selection is not surfaced through a
  status: the planner ends in a failed assertion.
\<close>

theorem configuration_errors:
  "(config_devices config = d # ds
      \<and> ParseFromArray ext (config_args config) = Some a
      \<and> columns_guard (int (length (args_cameras a))) (length (config_input_columns config))
    \<longrightarrow> (\<exists>k. GipumaKernel ext config = Inr k
          \<and> validate k r =
              r\<lparr>msg := columns_message (int (length (args_cameras a)))
                          (length (config_input_columns config)),
                success := False\<rparr>
          \<and> camera_params k = new_CameraParameters ext
          \<and> state k = new_GlobalState ext
          \<and> gpu_trace k = [SetDevice d]))
   \<and> (viewSelectionSubset (camera_params (views_selected ext k0)) = []
    \<longrightarrow> new_frame_info ext k0 = Inl (Assertion_failed, gpu_trace k0 @ [SetDevice (device k0)]))"
  by (simp add: GipumaKernel_def Let_def initial_kernel_def validate_def RESULT_ERROR_def
      new_frame_info_def i32_def views_selected_simps)

theorem configuration_errors_witness:
  "columns_guard 3 0
   \<and> observe (\<lambda>k. (validate k \<lparr>success = True, msg = []\<rparr>, cameras (camera_params k)))
       (GipumaKernel test_ext (test_config [10, 10, 10] 0))
     = Some (\<lparr>success = False,
             msg = ''GipumaKernel args specified 3 cameras but received 0 columns as input''\<rparr>,
            [])
   \<and> new_frame_info test_ext (test_kernel [10] 2 3)
     = Inl (Assertion_failed, [SetDevice 0, SetDevice 0])"
proof -
  let ?c = "test_config [10, 10, 10] 0"
  have g: "columns_guard 3 0"
    by (simp add: columns_guard_def lnot_def)
  have h1: "config_devices ?c = 0 # []
      \<and> ParseFromArray test_ext (config_args ?c) = Some (test_args [10, 10, 10])
      \<and> columns_guard (int (length (args_cameras (test_args [10, 10, 10]))))
          (length (config_input_columns ?c))"
    using g by (simp add: test_config_def test_ext_def test_args_def)
  have h2: "viewSelectionSubset (camera_params (views_selected test_ext (test_kernel [10] 2 3))) = []"
    by (simp add: views_selected_def set_device_def test_defs Let_def)
  have m: "columns_message 3 0
      = ''GipumaKernel args specified 3 cameras but received 0 columns as input''"
    by (simp add: columns_message_def string_of_int_def string_of_nat_digit digit_char_def)
  from configuration_errors [of ?c 0 "[]" test_ext "test_args [10, 10, 10]"
      "\<lparr>success = True, msg = []\<rparr>" "test_kernel [10] 2 3"] h1 h2
  obtain k where "GipumaKernel test_ext ?c = Inr k"
    and "validate k \<lparr>success = True, msg = []\<rparr> = \<lparr>success = False, msg = columns_message 3 0\<rparr>"
    and "camera_params k = new_CameraParameters test_ext"
    and "new_frame_info test_ext (test_kernel [10] 2 3)
      = Inl (Assertion_failed, gpu_trace (test_kernel [10] 2 3) @ [SetDevice (device (test_kernel [10] 2 3))])"
    by (auto simp: test_args_def test_config_def)
  then show ?thesis
    using g by (simp add: observe_def m test_ext_def test_kernel_def)
qed

text \<open>
  The claim as stated fails for the empty view selection: on a rig of a single camera
  no view can be selected, and the planner ends in a fault, not in a status.
\<close>

theorem empty_selection_is_a_fault:
  "new_frame_info test_ext (test_kernel [10] 2 3)
     = Inl (Assertion_failed, [SetDevice 0, SetDevice 0])
   \<and> success (valid (test_kernel [10] 2 3))"
  by (simp add: test_defs planner_defs i32_def)

section \<open>Properties of the executor\<close>

lemma preprocess_Inr:
  assumes "preprocess ext k ins w h i c = Inr g"
  shows "c * 2 < length ins" and "i < length (ins ! (c * 2))"
    and "int (row_size (ins ! (c * 2) ! i)) = i32 (i32 (w * h) * 3)"
    and "g = to_grayscale ext (height (frame_info k)) (width (frame_info k))
               (row_buffer (ins ! (c * 2) ! i))"
  using assms by (auto simp: preprocess_def Let_def split: if_splits)

lemma preprocess_Inl:
  assumes "preprocess ext k ins w h i c = Inl (e, tr)"
  shows "tr = gpu_trace k"
    and "c * 2 < length ins \<Longrightarrow> i < length (ins ! (c * 2)) \<Longrightarrow> e = Assertion_failed"
  using assms by (auto simp: preprocess_def Let_def split: if_splits)

lemma preprocess_all_Inr:
  "preprocess_all ext k ins w h i cs images = Inr gs \<Longrightarrow>
     gs = images @ map (\<lambda>c. to_grayscale ext (height (frame_info k)) (width (frame_info k))
                          (row_buffer (ins ! (c * 2) ! i))) cs
     \<and> (\<forall>c\<in>set cs. int (row_size (ins ! (c * 2) ! i)) = i32 (i32 (w * h) * 3))"
proof (induction cs arbitrary: images)
  case Nil
  then show ?case by simp
next
  case (Cons c cs)
  then obtain g where p: "preprocess ext k ins w h i c = Inr g"
    and r: "preprocess_all ext k ins w h i cs (images @ [g]) = Inr gs"
    by (auto split: sum.splits)
  from Cons.IH [OF r] preprocess_Inr(3,4) [OF p] show ?case by simp
qed

lemma preprocess_all_Inl:
  "preprocess_all ext k ins w h i cs images = Inl (e, tr) \<Longrightarrow>
     tr = gpu_trace k
     \<and> ((\<forall>c\<in>set cs. c * 2 < length ins \<and> i < length (ins ! (c * 2))) \<longrightarrow> e = Assertion_failed)"
proof (induction cs arbitrary: images)
  case Nil
  then show ?case by simp
next
  case (Cons c cs)
  show ?case
  proof (cases "preprocess ext k ins w h i c")
    case (Inl a)
    with Cons.prems have "preprocess ext k ins w h i c = Inl (e, tr)" by simp
    from preprocess_Inl [OF this] show ?thesis by simp
  next
    case (Inr g)
    with Cons.prems have "preprocess_all ext k ins w h i cs (images @ [g]) = Inl (e, tr)"
      by simp
    from Cons.IH [OF this] show ?thesis by simp
  qed
qed

text \<open>What one frame does to a kernel that gets through it.\<close>

lemma process_frame_Inr:
  assumes "process_frame ext ins w h osz i (k, col) = Inr (k', col')"
  shows "state k' =
      (let st = snd (runcuda ext (algo_params k)
                  ((state k)\<lparr>gs_imgs := frame_images ext k ins i\<rparr>))
       in st\<lparr>gs_imgs := drop (nat (num_img_processed (algo_params k))) (gs_imgs st)\<rparr>)"
    and "col' = col
          \<lparr>block_data := write_points (block_data col) (i32 (osz * int i))
             (copy_points osz (snd (runcuda ext (algo_params k)
                ((state k)\<lparr>gs_imgs := frame_images ext k ins i\<rparr>)))),
           output_column := output_column col @ [result_row osz i]\<rparr>"
    and "gpu_trace k' = gpu_trace k @
          [BindTextures (nat (num_cameras k)), ReleaseTextures (num_img_processed (algo_params k))]"
    and "algo_params k' = algo_params k" and "num_cameras k' = num_cameras k"
    and "frame_info k' = frame_info k"
    and "\<forall>c<nat (num_cameras k). int (row_size (ins ! (c * 2) ! i)) = i32 (i32 (w * h) * 3)"
proof -
  from assms obtain gs where
    p: "preprocess_all ext k ins w h i [0..<nat (num_cameras k)] [] = Inr gs"
    by (auto simp: process_frame_def split: sum.splits)
  from preprocess_all_Inr [OF p] have gs: "gs = frame_images ext k ins i"
    and sz: "\<forall>c<nat (num_cameras k). int (row_size (ins ! (c * 2) ! i)) = i32 (i32 (w * h) * 3)"
    by (simp_all add: frame_images_def)
  have k': "k' = delTexture (num_img_processed (algo_params k))
      ((addImageToTextureFloatGray gs k)
        \<lparr>state := snd (runcuda ext (algo_params k) ((state k)\<lparr>gs_imgs := gs\<rparr>))\<rparr>)"
    and c': "col' = col
          \<lparr>block_data := write_points (block_data col) (i32 (osz * int i))
             (copy_points osz (snd (runcuda ext (algo_params k) ((state k)\<lparr>gs_imgs := gs\<rparr>)))),
           output_column := INSERT_ROW (output_column col) (i32 (osz * int i)) osz\<rparr>"
    using assms p by (simp_all add: process_frame_def Let_def addImageToTextureFloatGray_def
        delTexture_def)
  show "state k' =
      (let st = snd (runcuda ext (algo_params k)
                  ((state k)\<lparr>gs_imgs := frame_images ext k ins i\<rparr>))
       in st\<lparr>gs_imgs := drop (nat (num_img_processed (algo_params k))) (gs_imgs st)\<rparr>)"
    by (simp add: k' gs delTexture_def addImageToTextureFloatGray_def Let_def)
  show "col' = col
          \<lparr>block_data := write_points (block_data col) (i32 (osz * int i))
             (copy_points osz (snd (runcuda ext (algo_params k)
                ((state k)\<lparr>gs_imgs := frame_images ext k ins i\<rparr>)))),
           output_column := output_column col @ [result_row osz i]\<rparr>"
    by (simp add: c' gs INSERT_ROW_def result_row_def)
  show "gpu_trace k' = gpu_trace k @
          [BindTextures (nat (num_cameras k)), ReleaseTextures (num_img_processed (algo_params k))]"
    by (simp add: k' gs delTexture_def addImageToTextureFloatGray_def frame_images_def)
  show "algo_params k' = algo_params k" "num_cameras k' = num_cameras k"
    "frame_info k' = frame_info k"
    by (simp_all add: k' delTexture_def addImageToTextureFloatGray_def)
  show "\<forall>c<nat (num_cameras k). int (row_size (ins ! (c * 2) ! i)) = i32 (i32 (w * h) * 3)"
    by (rule sz)
qed

lemma process_frame_Inl:
  assumes "process_frame ext ins w h osz i (k, col) = Inl (e, tr)"
  shows "tr = gpu_trace k"
    and "(\<forall>c<nat (num_cameras k). c * 2 < length ins \<and> i < length (ins ! (c * 2)))
          \<Longrightarrow> e = Assertion_failed"
proof -
  from assms have
    p: "preprocess_all ext k ins w h i [0..<nat (num_cameras k)] [] = Inl (e, tr)"
    by (auto simp: process_frame_def Let_def split: sum.splits)
  from preprocess_all_Inl [OF p] show "tr = gpu_trace k"
    and "(\<forall>c<nat (num_cameras k). c * 2 < length ins \<and> i < length (ins ! (c * 2)))
          \<Longrightarrow> e = Assertion_failed"
    by simp_all
qed

lemma process_frames_append:
  "process_frames ext ins w h osz (xs @ ys) ko =
     (case process_frames ext ins w h osz xs ko of
        Inl e \<Rightarrow> Inl e
      | Inr ko' \<Rightarrow> process_frames ext ins w h osz ys ko')"
  by (induction xs arbitrary: ko) (auto split: sum.splits)

lemma frame_images_cong:
  "num_cameras k' = num_cameras k \<Longrightarrow> frame_info k' = frame_info k
    \<Longrightarrow> frame_images ext k' ins i = frame_images ext k ins i"
  by (simp add: frame_images_def)

lemma binds_frame_calls:
  "binds (concat (replicate j (frame_calls k))) = j"
  "releases (concat (replicate j (frame_calls k))) = j"
  by (induction j) (simp_all add: binds_def releases_def frame_calls_def)

lemma concat_replicate_snoc:
  "concat (replicate n xs) @ xs = concat (replicate (Suc n) xs)"
  by (induction n) simp_all

lemma process_frames_upt_Inr:
  "process_frames ext ins w h osz [0..<n] (k, col) = Inr (k', col') \<Longrightarrow>
     state k' = solver_state ext k ins n
     \<and> col' = col\<lparr>block_data := block_after ext k ins osz (block_data col) n,
                     output_column := output_column col @ map (result_row osz) [0..<n]\<rparr>
     \<and> gpu_trace k' = gpu_trace k @ concat (replicate n (frame_calls k))
     \<and> algo_params k' = algo_params k \<and> num_cameras k' = num_cameras k
     \<and> frame_info k' = frame_info k
     \<and> (\<forall>i<n. \<forall>c<nat (num_cameras k).
           int (row_size (ins ! (c * 2) ! i)) = i32 (i32 (w * h) * 3))"
proof (induction n arbitrary: k' col')
  case 0
  then show ?case by simp
next
  case (Suc n)
  from Suc.prems obtain km cm where
    m: "process_frames ext ins w h osz [0..<n] (k, col) = Inr (km, cm)"
    and l: "process_frame ext ins w h osz n (km, cm) = Inr (k', col')"
    by (auto simp: process_frames_append split: sum.splits)
  note ih = Suc.IH [OF m]
  note step = process_frame_Inr [OF l]
  have im: "frame_images ext km ins n = frame_images ext k ins n"
    by (rule frame_images_cong) (use ih in simp_all)
  have st: "state k' = solver_state ext k ins (Suc n)"
    using step(1) ih by (simp add: im Let_def)
  have co: "col' = col\<lparr>block_data := block_after ext k ins osz (block_data col) (Suc n),
                     output_column := output_column col @ map (result_row osz) [0..<Suc n]\<rparr>"
    using step(2) ih by (simp add: im solved_def)
  have tr: "gpu_trace k' = gpu_trace k @ concat (replicate (Suc n) (frame_calls k))"
    using step(3) ih concat_replicate_snoc [of n "frame_calls k"]
    by (simp add: frame_calls_def)
  have sz: "\<forall>i<Suc n. \<forall>c<nat (num_cameras k).
      int (row_size (ins ! (c * 2) ! i)) = i32 (i32 (w * h) * 3)"
    using step(7) ih by (auto simp: less_Suc_eq)
  have "algo_params k' = algo_params k" "num_cameras k' = num_cameras k"
    "frame_info k' = frame_info k"
    using step(4,5,6) ih by simp_all
  then show ?case
    using st co tr sz by blast
qed

lemma process_frames_Inl:
  "process_frames ext ins w h osz idxs (k, col) = Inl (e, tr) \<Longrightarrow>
     (\<exists>j. tr = gpu_trace k @ concat (replicate j (frame_calls k)))
     \<and> ((\<forall>i\<in>set idxs. \<forall>c<nat (num_cameras k). c * 2 < length ins \<and> i < length (ins ! (c * 2)))
          \<longrightarrow> e = Assertion_failed)"
proof (induction idxs arbitrary: k col)
  case Nil
  then show ?case by simp
next
  case (Cons i idxs)
  show ?case
  proof (cases "process_frame ext ins w h osz i (k, col)")
    case (Inl a)
    with Cons.prems have f: "process_frame ext ins w h osz i (k, col) = Inl (e, tr)" by simp
    have "tr = gpu_trace k @ concat (replicate 0 (frame_calls k))"
      using process_frame_Inl(1) [OF f] by simp
    then have "\<exists>j. tr = gpu_trace k @ concat (replicate j (frame_calls k))" ..
    then show ?thesis
      using process_frame_Inl(2) [OF f] by simp
  next
    case (Inr ko)
    obtain k1 c1 where ko: "ko = (k1, c1)" by (cases ko)
    note step = process_frame_Inr [OF Inr [unfolded ko]]
    from Cons.prems Inr ko
    have r: "process_frames ext ins w h osz idxs (k1, c1) = Inl (e, tr)" by simp
    from Cons.IH [OF r] obtain j where
      j: "tr = gpu_trace k1 @ concat (replicate j (frame_calls k1))"
      and a: "(\<forall>i\<in>set idxs. \<forall>c<nat (num_cameras k1).
                 c * 2 < length ins \<and> i < length (ins ! (c * 2))) \<longrightarrow> e = Assertion_failed"
      by blast
    have fc: "frame_calls k1 = frame_calls k"
      using step(4,5) by (simp add: frame_calls_def)
    have "tr = gpu_trace k @ frame_calls k @ concat (replicate j (frame_calls k))"
      using j step(3) unfolding fc by (simp add: frame_calls_def)
    then have "tr = gpu_trace k @ concat (replicate (Suc j) (frame_calls k))"
      by simp
    then have "\<exists>j. tr = gpu_trace k @ concat (replicate j (frame_calls k))" ..
    then show ?thesis
      using a step(5) by simp
  qed
qed

text \<open>The trace that the check of the frame geometry leaves.\<close>

lemma check_frame_info_cases:
  obtains (unknown) "read_frame_info ext column = None"
      and "check_frame_info ext k column = Inr k"
    | (same) fi where "read_frame_info ext column = Some fi" and "planned k = Some fi"
      and "check_frame_info ext k column = Inr k"
    | (fault) fi e where "read_frame_info ext column = Some fi" and "planned k \<noteq> Some fi"
      and "new_frame_info ext (k\<lparr>frame_info := fi\<rparr>) = Inl e"
      and "check_frame_info ext k column = Inl e"
    | (plan) fi k1 where "read_frame_info ext column = Some fi" and "planned k \<noteq> Some fi"
      and "new_frame_info ext (k\<lparr>frame_info := fi\<rparr>) = Inr k1"
      and "check_frame_info ext k column = Inr (k1\<lparr>planned := Some fi\<rparr>)"
proof (cases "read_frame_info ext column")
  case None
  then show ?thesis using unknown by (simp add: check_frame_info_def)
next
  case (Some fi)
  show ?thesis
  proof (cases "planned k = Some fi")
    case True
    then show ?thesis using same Some by (simp add: check_frame_info_def)
  next
    case False
    show ?thesis
    proof (cases "new_frame_info ext (k\<lparr>frame_info := fi\<rparr>)")
      case (Inl e)
      then show ?thesis using fault Some False by (simp add: check_frame_info_def)
    next
      case (Inr k1)
      then show ?thesis using plan Some False by (simp add: check_frame_info_def)
    qed
  qed
qed

lemma check_frame_info_Inr:
  assumes "check_frame_info ext k column = Inr k'"
  shows "gpu_trace k' = gpu_trace k \<or> gpu_trace k' = gpu_trace k @ [SetDevice (device k)]"
    and "num_cameras k' = num_cameras k"
proof -
  have "(gpu_trace k' = gpu_trace k \<or> gpu_trace k' = gpu_trace k @ [SetDevice (device k)])
      \<and> num_cameras k' = num_cameras k"
  proof (cases rule: check_frame_info_cases [of ext column k])
    case unknown
    with assms show ?thesis by simp
  next
    case (same fi)
    with assms show ?thesis by simp
  next
    case (fault fi e)
    with assms show ?thesis by simp
  next
    case (plan fi k1)
    from new_frame_info_kernel_kept(2,3) [OF plan(3)] plan(4) assms show ?thesis by auto
  qed
  then show "gpu_trace k' = gpu_trace k \<or> gpu_trace k' = gpu_trace k @ [SetDevice (device k)]"
    and "num_cameras k' = num_cameras k"
    by simp_all
qed

lemma check_frame_info_Inl:
  assumes "check_frame_info ext k column = Inl (e, tr)"
  shows "tr = gpu_trace k @ [SetDevice (device k)]"
proof (cases rule: check_frame_info_cases [of ext column k])
  case unknown
  with assms show ?thesis by simp
next
  case (same fi)
  with assms show ?thesis by simp
next
  case (fault fi e')
  with assms have "new_frame_info ext (k\<lparr>frame_info := fi\<rparr>) = Inl (e, tr)" by simp
  from new_frame_info_Inl [OF this] show ?thesis by simp
next
  case (plan fi k1)
  with assms show ?thesis by simp
qed

text \<open>
  Claim C9. The planner runs when the frame geometry is checked. Once a check at a
  resolution has returned, a second check at the same resolution does not run the
  planner again: the algorithm parameters are those of the first run, the results
  buffer is the same with no further call of \<open>resize\<close>, and no GPU call is made.
  Where the first check did run the planner, it called \<open>resize\<close> exactly once.
\<close>

theorem planner_idempotent:
  assumes "read_frame_info ext column = Some fi" and "read_frame_info ext column' = Some fi"
    and "check_frame_info ext k column = Inr k1"
  shows "(\<exists>k2. check_frame_info ext k1 column' = Inr k2
        \<and> algo_params k2 = algo_params k1
        \<and> gs_lines (state k2) = gs_lines (state k1)
        \<and> lines_resizes (gs_lines (state k2)) = lines_resizes (gs_lines (state k1))
        \<and> gpu_trace k2 = gpu_trace k1)
    \<and> (planned k \<noteq> Some fi \<longrightarrow>
          lines_resizes (gs_lines (state k1)) = Suc (lines_resizes (gs_lines (state k))))"
proof (cases rule: check_frame_info_cases [of ext column k])
  case unknown
  with assms(1) show ?thesis by simp
next
  case (same fi')
  with assms have "k1 = k" and "planned k = Some fi" by simp_all
  then show ?thesis
    using assms(2) by (simp add: check_frame_info_def)
next
  case (fault fi' e)
  with assms(3) show ?thesis by simp
next
  case (plan fi' kp)
  with assms have k1: "k1 = kp\<lparr>planned := Some fi\<rparr>"
    and run: "new_frame_info ext (k\<lparr>frame_info := fi\<rparr>) = Inr kp"
    by simp_all
  have "check_frame_info ext k1 column' = Inr k1"
    using assms(2) by (simp add: check_frame_info_def k1)
  moreover have "lines_resizes (gs_lines (state k1)) = Suc (lines_resizes (gs_lines (state k)))"
    using new_frame_info_Inr(5) [OF run] by (simp add: k1 resize_def)
  ultimately show ?thesis by simp
qed

theorem planner_idempotent_witness:
  "\<exists>k1 k2. check_frame_info test_ext (test_kernel [10, 10] 0 0) [test_row [2, 3]] = Inr k1
     \<and> check_frame_info test_ext k1 [test_row [2, 3]] = Inr k2
     \<and> algo_params k2 = algo_params k1
     \<and> lines_resizes (gs_lines (state (test_kernel [10, 10] 0 0))) = 0
     \<and> lines_resizes (gs_lines (state k1)) = 1
     \<and> lines_resizes (gs_lines (state k2)) = 1"
proof -
  let ?k = "test_kernel [10, 10] 0 0" and ?c = "[test_row [2, 3]]"
  have r: "read_frame_info test_ext ?c = Some \<lparr>width = 2, height = 3\<rparr>"
    by (simp add: test_ext_def test_frame_info_def test_row_def)
  have p: "planned ?k \<noteq> Some \<lparr>width = 2, height = 3\<rparr>"
    "lines_resizes (gs_lines (state ?k)) = 0"
    by (simp_all add: test_kernel_def test_ext_def)
  have "\<exists>k1. check_frame_info test_ext ?k ?c = Inr k1"
    by (simp add: check_frame_info_def test_row_def test_defs planner_defs i32_def
        upt_conv_Cons)
  then obtain k1 where c: "check_frame_info test_ext ?k ?c = Inr k1" ..
  from planner_idempotent [OF r r c] p
  obtain k2 where "check_frame_info test_ext k1 ?c = Inr k2"
    and "algo_params k2 = algo_params k1"
    and "lines_resizes (gs_lines (state k2)) = lines_resizes (gs_lines (state k1))"
    and "lines_resizes (gs_lines (state k1)) = 1"
    by auto
  with c p(2) show ?thesis
    by (intro exI [of _ k1] exI [of _ k2]) simp
qed


lemma execute_checked:
  assumes "1 < length ins" and "check_frame_info ext (set_device k) (ins ! 1) = Inr k1"
  shows "execute ext k ins col =
     process_frames ext ins (width (frame_info k1)) (height (frame_info k1))
           (i32 (i32 (width (frame_info k1) * height (frame_info k1)) * 16))
           [0..<nat (i32 (int (length (ins ! 0))))] (k1, batch_start k1 ins col)"
  using assms by (simp add: execute_def Let_def batch_start_def)

lemma execute_check_fault:
  assumes "1 < length ins" and "check_frame_info ext (set_device k) (ins ! 1) = Inl e"
  shows "execute ext k ins col = Inl e"
  using assms by (simp add: execute_def Let_def)

section \<open>Claims about the executor\<close>

text \<open>
  Claim C6. Whatever way a call of \<open>execute\<close> ends, by a failed assertion, by a fault
  or normally, and whatever the solver returns, the calls it has added to the trace
  contain as many releases of the texture array as bindings. The same holds for each
  single frame.
\<close>

theorem texture_releases_equal_bindings:
  "(\<exists>calls. final_trace (process_frame ext ins w h osz i (k, out)) = gpu_trace k @ calls
      \<and> releases calls = binds calls)
   \<and> (\<exists>calls. final_trace (execute ext k ins col) = gpu_trace k @ calls
      \<and> releases calls = binds calls)"
proof
  show "\<exists>calls. final_trace (process_frame ext ins w h osz i (k, out)) = gpu_trace k @ calls
      \<and> releases calls = binds calls"
  proof (cases "process_frame ext ins w h osz i (k, out)")
    case (Inl a)
    obtain e tr where a: "a = (e, tr)" by (cases a)
    from process_frame_Inl(1) [OF Inl [unfolded a]]
    have "final_trace (process_frame ext ins w h osz i (k, out)) = gpu_trace k @ []"
      by (simp add: Inl a final_trace_def)
    then show ?thesis
      by (metis (no_types) binds_def releases_def filter.simps(1))
  next
    case (Inr b)
    obtain k' col' where b: "b = (k', col')" by (cases b)
    from process_frame_Inr(3) [OF Inr [unfolded b]]
    have "final_trace (process_frame ext ins w h osz i (k, out))
        = gpu_trace k @ concat (replicate 1 (frame_calls k))"
      by (simp add: Inr b final_trace_def frame_calls_def)
    then show ?thesis
      using binds_frame_calls [of 1 k] by metis
  qed
next
  let ?k = "set_device k"
  have pre: "gpu_trace ?k = gpu_trace k @ [SetDevice (device k)]" "device ?k = device k"
    by (simp_all add: set_device_def)
  have none: "binds [SetDevice d] = 0" "releases [SetDevice d] = 0"
    "binds [SetDevice d, SetDevice d] = 0" "releases [SetDevice d, SetDevice d] = 0" for d
    by (simp_all add: binds_def releases_def)
  have frames: "\<exists>calls. final_trace r = gpu_trace k @ calls \<and> releases calls = binds calls"
    if r: "r = process_frames ext ins w' h' osz' [0..<n] (k1, out1)"
      and k1: "\<exists>p. gpu_trace k1 = gpu_trace k @ p \<and> releases p = 0 \<and> binds p = 0"
    for r w' h' osz' n k1 out1
  proof -
    from k1 obtain p where p: "gpu_trace k1 = gpu_trace k @ p" "releases p = 0" "binds p = 0"
      by blast
    have "\<exists>j. final_trace r = gpu_trace k1 @ concat (replicate j (frame_calls k1))"
    proof (cases r)
      case (Inl a)
      obtain e tr where a: "a = (e, tr)" by (cases a)
      from process_frames_Inl [OF Inl [unfolded a r]] show ?thesis
        by (simp add: Inl a final_trace_def)
    next
      case (Inr b)
      obtain k' col' where b: "b = (k', col')" by (cases b)
      from process_frames_upt_Inr [OF Inr [unfolded b r]] show ?thesis
        by (auto simp: Inr b final_trace_def)
    qed
    then obtain j where j: "final_trace r = gpu_trace k1 @ concat (replicate j (frame_calls k1))" ..
    have "releases (p @ concat (replicate j (frame_calls k1)))
        = binds (p @ concat (replicate j (frame_calls k1)))"
      using p(2,3) binds_frame_calls [of j k1] by (simp add: binds_def releases_def)
    then show ?thesis
      using j p(1) by (metis append.assoc)
  qed
  show "\<exists>calls. final_trace (execute ext k ins col) = gpu_trace k @ calls
      \<and> releases calls = binds calls"
  proof (cases "1 < length ins")
    case False
    then have "final_trace (execute ext k ins col) = gpu_trace k @ [SetDevice (device k)]"
      by (simp add: execute_def Let_def final_trace_def pre)
    then show ?thesis
      using none(1,2) by metis
  next
    case True
    show ?thesis
    proof (cases "check_frame_info ext ?k (ins ! 1)")
      case (Inl a)
      obtain e tr where a: "a = (e, tr)" by (cases a)
      from check_frame_info_Inl [OF Inl [unfolded a]]
      have "final_trace (execute ext k ins col)
          = gpu_trace k @ [SetDevice (device k), SetDevice (device k)]"
        by (simp add: execute_check_fault [OF True Inl] final_trace_def a pre)
      then show ?thesis
        using none(3,4) by metis
    next
      case (Inr k1)
      from check_frame_info_Inr(1) [OF Inr]
      have "gpu_trace k1 = gpu_trace k @ [SetDevice (device k)]
          \<or> gpu_trace k1 = gpu_trace k @ [SetDevice (device k), SetDevice (device k)]"
        by (simp add: pre)
      then have "\<exists>p. gpu_trace k1 = gpu_trace k @ p \<and> releases p = 0 \<and> binds p = 0"
        using none by metis
      from frames [OF execute_checked [OF True Inr] this] show ?thesis .
    qed
  qed
qed

lemma preprocess_all_succeeds:
  "\<forall>c\<in>set cs. c * 2 < length ins \<and> i < length (ins ! (c * 2))
      \<and> int (row_size (ins ! (c * 2) ! i)) = i32 (i32 (w * h) * 3)
    \<Longrightarrow> \<exists>gs. preprocess_all ext k ins w h i cs images = Inr gs"
  by (induction cs arbitrary: images) (simp_all add: preprocess_def Let_def)

lemma process_frame_succeeds:
  assumes "\<forall>c<nat (num_cameras k). c * 2 < length ins \<and> i < length (ins ! (c * 2))
      \<and> int (row_size (ins ! (c * 2) ! i)) = i32 (i32 (w * h) * 3)"
  shows "\<exists>k' col'. process_frame ext ins w h osz i (k, col) = Inr (k', col')"
proof -
  from assms obtain gs where
    "preprocess_all ext k ins w h i [0..<nat (num_cameras k)] [] = Inr gs"
    using preprocess_all_succeeds [of "[0..<nat (num_cameras k)]" ins i w h ext k "[]"] by auto
  then show ?thesis
    by (simp add: process_frame_def Let_def)
qed

lemma process_frames_upt_succeeds:
  assumes "\<forall>i<n. \<forall>c<nat (num_cameras k). c * 2 < length ins \<and> i < length (ins ! (c * 2))
      \<and> int (row_size (ins ! (c * 2) ! i)) = i32 (i32 (w * h) * 3)"
  shows "\<exists>k' col'. process_frames ext ins w h osz [0..<n] (k, col) = Inr (k', col')"
  using assms
proof (induction n)
  case 0
  then show ?case by simp
next
  case (Suc n)
  then obtain km cm where m: "process_frames ext ins w h osz [0..<n] (k, col) = Inr (km, cm)"
    by (auto simp: less_Suc_eq)
  have nc: "num_cameras km = num_cameras k"
    using process_frames_upt_Inr [OF m] by simp
  have "\<forall>c<nat (num_cameras km). c * 2 < length ins \<and> n < length (ins ! (c * 2))
      \<and> int (row_size (ins ! (c * 2) ! n)) = i32 (i32 (w * h) * 3)"
  proof (intro allI impI)
    fix c
    assume "c < nat (num_cameras km)"
    then have "c < nat (num_cameras k)" by (simp add: nc)
    from Suc.prems [rule_format, OF lessI this] show "c * 2 < length ins
        \<and> n < length (ins ! (c * 2))
        \<and> int (row_size (ins ! (c * 2) ! n)) = i32 (i32 (w * h) * 3)" .
  qed
  from process_frame_succeeds [OF this] obtain k' col' where
    "process_frame ext ins w h osz n (km, cm) = Inr (k', col')" by blast
  then show ?case
    using m by (simp add: process_frames_append)
qed

lemma process_frame_mismatch:
  assumes wf: "\<forall>c<nat (num_cameras k). c * 2 < length ins \<and> i < length (ins ! (c * 2))"
    and bad: "\<exists>c<nat (num_cameras k). int (row_size (ins ! (c * 2) ! i)) \<noteq> i32 (i32 (w * h) * 3)"
  shows "process_frame ext ins w h osz i (k, col) = Inl (Assertion_failed, gpu_trace k)"
proof (cases "process_frame ext ins w h osz i (k, col)")
  case (Inl a)
  obtain e tr where a: "a = (e, tr)" by (cases a)
  from process_frame_Inl [OF Inl [unfolded a]] wf show ?thesis
    by (simp add: Inl a)
next
  case (Inr b)
  obtain k' col' where b: "b = (k', col')" by (cases b)
  from process_frame_Inr(7) [OF Inr [unfolded b]] bad show ?thesis by blast
qed

text \<open>
  Claim C7. Once the frame geometry is established: a call of \<open>execute\<close> that returns
  normally has found the asserted size \<open>width * height * 3\<close> in the row of every
  camera channel of every frame; and when frame \<open>i\<close> is the first with a row of
  another size, in a batch that holds all its rows, the call ends in a failed assertion
  with exactly the \<open>i\<close> frames before it processed, so nothing was bound or solved for
  the frame of the mismatch or any later one.
\<close>

theorem row_size_asserted:
  assumes "1 < length ins" and "check_frame_info ext (set_device k) (ins ! 1) = Inr k1"
  shows "(\<forall>k' col'. execute ext k ins col = Inr (k', col') \<longrightarrow>
           (\<forall>i<input_count ins. \<forall>c<nat (num_cameras k1).
              int (row_size (ins ! (c * 2) ! i)) = asserted_size k1))
    \<and> (rows_present k1 ins \<and> i < input_count ins
         \<and> (\<forall>j<i. \<forall>c<nat (num_cameras k1).
               int (row_size (ins ! (c * 2) ! j)) = asserted_size k1)
         \<and> (\<exists>c<nat (num_cameras k1). int (row_size (ins ! (c * 2) ! i)) \<noteq> asserted_size k1)
        \<longrightarrow> execute ext k ins col
             = Inl (Assertion_failed, gpu_trace k1 @ concat (replicate i (frame_calls k1))))"
proof (intro conjI allI impI)
  let ?w = "width (frame_info k1)" and ?h = "height (frame_info k1)"
  let ?osz = "i32 (i32 (?w * ?h) * 16)"
  note ex = execute_checked [OF assms, of col]
  {
    fix k' col' j c
    assume "execute ext k ins col = Inr (k', col')"
      and "j < input_count ins" and "c < nat (num_cameras k1)"
    then show "int (row_size (ins ! (c * 2) ! j)) = asserted_size k1"
      using process_frames_upt_Inr [of ext ins ?w ?h ?osz "input_count ins" k1
          "batch_start k1 ins col" k' col']
      by (simp add: ex input_count_def asserted_size_def)
  }
  assume a: "rows_present k1 ins \<and> i < input_count ins
         \<and> (\<forall>j<i. \<forall>c<nat (num_cameras k1).
               int (row_size (ins ! (c * 2) ! j)) = asserted_size k1)
         \<and> (\<exists>c<nat (num_cameras k1). int (row_size (ins ! (c * 2) ! i)) \<noteq> asserted_size k1)"
  then have i: "i < input_count ins" by simp
  have wf: "\<forall>c<nat (num_cameras k1). c * 2 < length ins \<and> j < length (ins ! (c * 2))"
    if "j \<le> i" for j
    using a that by (auto simp: rows_present_def)
  have "\<forall>j<i. \<forall>c<nat (num_cameras k1). c * 2 < length ins \<and> j < length (ins ! (c * 2))
      \<and> int (row_size (ins ! (c * 2) ! j)) = i32 (i32 (?w * ?h) * 3)"
    using a wf [OF less_imp_le] by (simp add: asserted_size_def)
  from process_frames_upt_succeeds [OF this] obtain km cm where
    m: "process_frames ext ins ?w ?h ?osz [0..<i] (k1, batch_start k1 ins col) = Inr (km, cm)"
    by blast
  note kept = process_frames_upt_Inr [OF m]
  have "process_frame ext ins ?w ?h ?osz i (km, cm) = Inl (Assertion_failed, gpu_trace km)"
  proof (rule process_frame_mismatch)
    show "\<forall>c<nat (num_cameras km). c * 2 < length ins \<and> i < length (ins ! (c * 2))"
      using wf [of i] kept by simp
    show "\<exists>c<nat (num_cameras km).
        int (row_size (ins ! (c * 2) ! i)) \<noteq> i32 (i32 (?w * ?h) * 3)"
      using a kept by (simp add: asserted_size_def)
  qed
  then have f: "process_frames ext ins ?w ?h ?osz ([0..<i] @ i # [Suc i..<input_count ins])
        (k1, batch_start k1 ins col)
      = Inl (Assertion_failed, gpu_trace km)"
    using m by (simp add: process_frames_append)
  have "[0..<i + (input_count ins - i)] = [0..<i] @ [i..<i + (input_count ins - i)]"
    by (rule upt_add_eq_append) simp
  then have "[0..<input_count ins] = [0..<i] @ [i..<input_count ins]"
    using i by simp
  then have "[0..<input_count ins] = [0..<i] @ i # [Suc i..<input_count ins]"
    using i by (simp add: upt_conv_Cons)
  then show "execute ext k ins col
      = Inl (Assertion_failed, gpu_trace k1 @ concat (replicate i (frame_calls k1)))"
    using f kept by (simp add: ex input_count_def)
qed




lemmas executor_defs =
  execute_def check_frame_info_def process_frame_def preprocess_def
  addImageToTextureFloatGray_def delTexture_def INSERT_ROW_def copy_points_def
  new_block_buffer_def write_points_def

lemma test_check:
  "\<exists>k1. check_frame_info test_ext (set_device (test_kernel [0, 10] 0 0)) [test_row [2, 1], test_row [2, 1]] = Inr k1
     \<and> frame_info k1 = \<lparr>width = 2, height = 1\<rparr> \<and> num_cameras k1 = 2
     \<and> num_img_processed (algo_params k1) = 2
     \<and> gpu_trace k1 = [SetDevice 0, SetDevice 0, SetDevice 0]"
  by (simp add: executor_defs test_row_def test_defs planner_defs i32_def upt_conv_Cons)

lemma test_execute:
  "\<exists>k' out'. execute test_ext (test_kernel [0, 10] 0 0) test_batch [] = Inr (k', out')
     \<and> map (block_data out') [0, 16, 32, 48]
         = [Some (22, 0, 0, 0), Some (22, 0, 0, 0), Some (27, 0, 0, 0), Some (27, 0, 0, 0)]"
  by (simp add: executor_defs test_row_def test_batch_def test_defs planner_defs i32_def
      upt_conv_Cons)


theorem row_size_asserted_witness:
  "(\<exists>k' col'. execute test_ext (test_kernel [0, 10] 0 0) test_batch [] = Inr (k', col'))
   \<and> row_size (test_batch ! 2 ! 1) = 6
   \<and> row_size (test_bad_batch ! 2 ! 1) = 5
   \<and> execute test_ext (test_kernel [0, 10] 0 0) test_bad_batch []
      = Inl (Assertion_failed,
          [SetDevice 0, SetDevice 0, SetDevice 0, BindTextures 2, ReleaseTextures 2])"
proof -
  let ?k = "test_kernel [0, 10] 0 0"
  from test_check obtain k1 where
    c: "check_frame_info test_ext (set_device ?k) (test_batch ! 1) = Inr k1"
    and c': "check_frame_info test_ext (set_device ?k) (test_bad_batch ! 1) = Inr k1"
    and f: "frame_info k1 = \<lparr>width = 2, height = 1\<rparr>" "num_cameras k1 = 2"
      "num_img_processed (algo_params k1) = 2"
      "gpu_trace k1 = [SetDevice 0, SetDevice 0, SetDevice 0]"
    by (auto simp: test_batch_def test_bad_batch_def)
  from test_execute obtain k' col' where
    e: "execute test_ext ?k test_batch [] = Inr (k', col')"
    by (elim exE conjE)
  have l: "1 < length test_batch" "1 < length test_bad_batch"
    by (simp_all add: test_batch_def test_bad_batch_def)
  have a: "asserted_size k1 = 6"
    by (simp add: asserted_size_def f i32_def)
  have two: "c < 2 \<longleftrightarrow> c = 0 \<or> c = 1" for c :: nat
    by auto
  have n: "input_count test_batch = 2" "input_count test_bad_batch = 2"
    by (simp_all add: input_count_def test_batch_def test_bad_batch_def i32_def)
  from row_size_asserted [OF l(1) c, of "[]" 0] e
  have "\<forall>i<2. \<forall>c<2. int (row_size (test_batch ! (c * 2) ! i)) = asserted_size k1"
    by (simp add: n f)
  from this [rule_format, of 1 1]
  have "int (row_size (test_batch ! (1 * 2) ! 1)) = asserted_size k1"
    by simp
  then have good: "row_size (test_batch ! 2 ! 1) = 6"
    by (simp add: a)
  have bad: "row_size (test_bad_batch ! 2 ! 1) = 5"
    by (simp add: test_bad_batch_def test_row_def)
  have p: "rows_present k1 test_bad_batch \<and> 1 < input_count test_bad_batch
         \<and> (\<forall>j<1. \<forall>c<nat (num_cameras k1).
               int (row_size (test_bad_batch ! (c * 2) ! j)) = asserted_size k1)
         \<and> (\<exists>c<nat (num_cameras k1).
               int (row_size (test_bad_batch ! (c * 2) ! 1)) \<noteq> asserted_size k1)"
    unfolding rows_present_def n f a
    by (auto simp: two test_bad_batch_def test_row_def)
  from row_size_asserted [OF l(2) c', of "[]" 1] p
  have "execute test_ext ?k test_bad_batch []
      = Inl (Assertion_failed, gpu_trace k1 @ concat (replicate 1 (frame_calls k1)))"
    by blast
  then have "execute test_ext ?k test_bad_batch []
      = Inl (Assertion_failed,
          [SetDevice 0, SetDevice 0, SetDevice 0, BindTextures 2, ReleaseTextures 2])"
    by (simp add: f frame_calls_def)
  with e good bad show ?thesis
    by (intro conjI exI [of _ k'] exI [of _ col'])
qed

end
